theory Spec2Isabelle
  imports Complex_Main
begin

section \<open>Game constants and enumerations (game_engine.py)\<close>

text \<open>
  Python numbers are modelled as follows: coordinates, distances, speeds and the player's
  health are \<open>real\<close> (Python floats, idealised: no rounding error, no NaN); counters,
  frames, cooldowns and enemy health are \<open>int\<close> (Python's unbounded ints).
\<close>

definition ROOM_WIDTH :: real where "ROOM_WIDTH = 600"
definition ROOM_HEIGHT :: real where "ROOM_HEIGHT = 600"
definition WIDTH :: real where "WIDTH = 1400"
definition HEIGHT :: real where "HEIGHT = 750"
definition PLAYER_SIZE :: real where "PLAYER_SIZE = 30"
definition NPC_SIZE :: real where "NPC_SIZE = 24"
definition ENEMY_SIZE :: real where "ENEMY_SIZE = 30"
definition OBSTACLE_SIZE :: real where "OBSTACLE_SIZE = 40"
definition FPS :: int where "FPS = 30"
definition MAX_HEALTH :: real where "MAX_HEALTH = 100"
definition ENEMY_DAMAGE :: real where "ENEMY_DAMAGE = 20"
definition RESOURCE_HEAL :: real where "RESOURCE_HEAL = 10"
definition ENEMY_DETECTION_RADIUS :: real where "ENEMY_DETECTION_RADIUS = 250"
definition ATTACK_RADIUS :: real where "ATTACK_RADIUS = 60"
definition PLAYER_DAMAGE :: int where "PLAYER_DAMAGE = 100"
definition NPC_DAMAGE :: int where "NPC_DAMAGE = 20"
definition PLAYER_SPEED :: real where "PLAYER_SPEED = 4"
definition NPC_SPEED :: real where "NPC_SPEED = 5 / 2"
definition ENEMY_SPEED :: real where "ENEMY_SPEED = 3 / 2"

datatype PlayerAction = IDLE | MOVE | ATTACK

datatype NPCEmotion = ANTICIPATION | HAPPINESS | FEAR | ANGER | SURPRISE | SADNESS

datatype NPCReaction =
  FOLLOW | NOTIFY_RESOURCE | NOTIFY_DANGER | ATTACK_ENEMY | NOTIFY_SURPRISE | PROVIDE_HEALING

datatype GameState = START_SCREEN | PLAYING | COMPLETED

text \<open>\<open>a // b\<close> on numbers: floor division.\<close>

definition floordiv :: "real \<Rightarrow> real \<Rightarrow> real" where
  "floordiv a b = of_int \<lfloor>a / b\<rfloor>"

text \<open>\<open>math.sqrt((x1 - x2)**2 + (y1 - y2)**2)\<close>, the distance every mover uses.\<close>

definition distance :: "real \<Rightarrow> real \<Rightarrow> real \<Rightarrow> real \<Rightarrow> real" where
  "distance x1 y1 x2 y2 = sqrt ((x1 - x2)\<^sup>2 + (y1 - y2)\<^sup>2)"

section \<open>The rule-based strategy (Emotion_Systems/rule_based_emotion.py)\<close>

text \<open>
  The thirteen arguments of \<open>determine_emotion\<close>, in the source's order. A \<open>strategy\<close> is
  what the strategy of a run answers in one tick: any function of these arguments. Nothing
  in \<open>update\<close> catches an exception, so a call of the strategy that raises ends the program;
  the ticks of the game model below are the ticks in which the call returns.
\<close>

type_synonym strategy =
  "real \<Rightarrow> real \<Rightarrow> real \<Rightarrow> PlayerAction \<Rightarrow> int \<Rightarrow> real \<Rightarrow> real \<Rightarrow> real \<Rightarrow> real
    \<Rightarrow> int \<Rightarrow> int \<Rightarrow> NPCEmotion \<Rightarrow> PlayerAction \<Rightarrow> NPCEmotion"

text \<open>
  The one place where the rule-based strategy can raise is \<open>(...)**2\<close> on floats. A float
  result of magnitude \<open>2^1024 - 2^970\<close> or more rounds to infinity. A difference of that
  magnitude is already \<open>inf\<close>, and \<open>inf**2\<close> is \<open>inf\<close> without an error; a finite difference
  whose square reaches it makes \<open>**\<close> raise OverflowError. The sum of two squares never
  raises (it may be \<open>inf\<close>, whose root \<open>inf\<close> is not below 60, as the real root is not).
  The coordinates are floats, as the engine passes them; the Python ints it passes at the
  start of a run are small and behave as the equal floats.
\<close>

datatype py_error = OverflowError

definition FLOAT_OVERFLOW :: real where
  "FLOAT_OVERFLOW = 2 ^ 1024 - 2 ^ 970"

definition square_overflows :: "real \<Rightarrow> bool" where
  "square_overflows d \<longleftrightarrow> \<bar>d\<bar> < FLOAT_OVERFLOW \<and> FLOAT_OVERFLOW \<le> d\<^sup>2"

definition py_square :: "real \<Rightarrow> py_error + real" where
  "py_square d = (if square_overflows d then Inl OverflowError else Inr (d\<^sup>2))"

text \<open>
  \<open>RuleBasedEmotionSystem.determine_emotion\<close>: a default and five independent \<open>if\<close>
  statements, each overwriting the local variable \<open>emotion\<close>. The fourth evaluates the
  distance only when the action is ATTACK (\<open>and\<close> does not evaluate its second operand
  otherwise): first the square of the x difference, then that of the y difference, either
  of which may raise, before the health test is reached.
\<close>

type_synonym rule_result = "py_error + NPCEmotion"

definition determine_emotion ::
  "real \<Rightarrow> real \<Rightarrow> real \<Rightarrow> PlayerAction \<Rightarrow> int \<Rightarrow> real \<Rightarrow> real \<Rightarrow> real \<Rightarrow> real
    \<Rightarrow> int \<Rightarrow> int \<Rightarrow> NPCEmotion \<Rightarrow> PlayerAction \<Rightarrow> rule_result" where
  "determine_emotion player_health enemy_proximity resource_proximity lagged_player_action
      level player_x player_y npc_x npc_y resources_collected enemies_killed
      npc_emotion_lagged current_player_action =
    (let emotion = ANTICIPATION;
         emotion = (if resource_proximity < 150 then HAPPINESS else emotion);
         emotion = (if enemy_proximity < 125 then FEAR else emotion);
         emotion = (if enemy_proximity < 60 then ANGER else emotion)
     in case (if current_player_action = ATTACK then
                (case py_square (player_x - npc_x) of
                   Inl e \<Rightarrow> Inl e
                 | Inr sx \<Rightarrow>
                     (case py_square (player_y - npc_y) of
                        Inl e \<Rightarrow> Inl e
                      | Inr sy \<Rightarrow> Inr (if sqrt (sx + sy) < 60 then SURPRISE else emotion)))
              else Inr emotion) of
          Inl e \<Rightarrow> Inl e
        | Inr emotion \<Rightarrow> Inr (if player_health \<le> 30 then SADNESS else emotion))"

section \<open>The entity store (Game.reset)\<close>

record player_rec =
  p_x :: real
  p_y :: real
  p_health :: real
  p_action :: PlayerAction
  p_speed :: real
  p_resources_collected :: int
  p_enemies_killed :: int

record npc_rec =
  n_x :: real
  n_y :: real
  n_emotion :: NPCEmotion
  n_emotion_lagged :: NPCEmotion
  n_reaction :: NPCReaction
  n_speed :: real
  n_attack_cooldown :: int

record enemy =
  e_x :: real
  e_y :: real
  e_speed :: real
  e_alive :: bool
  e_room :: int
  e_health :: int

record resource =
  r_x :: real
  r_y :: real
  r_collected :: bool
  r_room :: int

record room_rec =
  rm_x :: real
  rm_y :: real
  rm_width :: real
  rm_height :: real

record door_rec =
  d_x :: real
  d_y :: real
  d_width :: real
  d_height :: real
  d_open :: bool

record exit_rec =
  x_x :: real
  x_y :: real
  x_width :: real
  x_height :: real
  x_room :: int

text \<open>
  The fields of \<open>Game\<close> that the simulation reads or writes (fonts, screen and clock are
  presentation). \<open>rooms\<close> and \<open>obstacles\<close> are dictionaries with the keys 1 and 2;
  \<open>current_room\<close> is only ever assigned 1 or 2 (by \<open>reset\<close>, the door and the debug keys;
  lemma \<open>current_room_reachable\<close>), so a lookup never misses and the dictionaries are total
  functions here.
\<close>

record game =
  running :: bool
  game_over :: bool
  debug_mode :: bool
  participant_id :: "string option"
  condition :: "string option"
  game_time_limit :: int
  last_room_transition :: int
  room_transition_cooldown :: int
  state :: GameState
  frame :: int
  resources_collected :: int
  enemies_killed :: int
  door_opened :: bool
  current_room :: int
  door_unlock_effect :: bool
  door_unlock_timer :: int
  lagged_player_action :: PlayerAction
  player :: player_rec
  npc :: npc_rec
  rooms :: "int \<Rightarrow> room_rec"
  obstacles :: "int \<Rightarrow> (real \<times> real) list"
  enemies :: "enemy list"
  resources :: "resource list"
  door :: door_rec
  exit_zone :: exit_rec

section \<open>Inputs of a tick\<close>

datatype key =
  K_ESCAPE | K_RETURN | K_SPACE | K_r | K_d | K_o | K_1 | K_2 | K_w | K_s | K_a
  | K_UP | K_DOWN | K_LEFT | K_RIGHT | K_OTHER

datatype event = QUIT | KEYDOWN key | KEYUP key | OTHER_EVENT

text \<open>
  The random numbers one enemy consumes in \<open>update_enemies\<close>, each the value of one
  \<open>random.random()\<close> call in \<open>[0, 1)\<close>: two for the jitter, one for the 30 percent test, one for
  the random heading. \<open>random.uniform(a, b)\<close> is \<open>a + (b - a) * random()\<close>.
\<close>

record enemy_draw =
  u_jitter_x :: real
  u_jitter_y :: real
  u_chance :: real
  u_angle :: real

definition uniform :: "real \<Rightarrow> real \<Rightarrow> real \<Rightarrow> real" where
  "uniform a b u = a + (b - a) * u"

text \<open>
  What \<open>reset\<close> samples: the obstacle field of each room (the result of
  \<open>generate_obstacles\<close>), and for the i-th spawned enemy and resource the position returned
  by \<open>get_valid_position\<close> (and the enemy's \<open>random.uniform\<close> speed).
\<close>

record layout =
  lo_obstacles :: "int \<Rightarrow> (real \<times> real) list"
  lo_enemy_pos :: "nat \<Rightarrow> real \<times> real"
  lo_enemy_speed :: "nat \<Rightarrow> real"
  lo_resource_pos :: "nat \<Rightarrow> real \<times> real"

text \<open>
  Everything one call of \<open>update\<close> reads from outside the game object: the event queue,
  the pressed keys, whether Ctrl is held (\<open>pygame.key.get_mods()\<close>), the clock
  (\<open>pygame.time.get_ticks()\<close>), the strategy's \<open>determine_emotion\<close> for this call, the
  enemies' random numbers (by index in \<open>self.enemies\<close>) and what a reset would sample.
\<close>

record tick_input =
  ti_events :: "event list"
  ti_keys :: "key \<Rightarrow> bool"
  ti_ctrl :: bool
  ti_ticks :: int
  ti_decide :: strategy
  ti_rand :: "nat \<Rightarrow> enemy_draw"
  ti_layout :: layout

section \<open>Reset\<close>

definition room_x_offset :: real where
  "room_x_offset = floordiv (WIDTH - (2 * ROOM_WIDTH + 150)) 2"

definition room_y_offset :: real where
  "room_y_offset = floordiv (HEIGHT - ROOM_HEIGHT) 2"

definition spawn_enemy :: "layout \<Rightarrow> int \<Rightarrow> nat \<Rightarrow> enemy" where
  "spawn_enemy lo room i =
    \<lparr>e_x = fst (lo_enemy_pos lo i), e_y = snd (lo_enemy_pos lo i),
     e_speed = lo_enemy_speed lo i, e_alive = True, e_room = room, e_health = 100\<rparr>"

definition spawn_resource :: "layout \<Rightarrow> int \<Rightarrow> nat \<Rightarrow> resource" where
  "spawn_resource lo room i =
    \<lparr>r_x = fst (lo_resource_pos lo i), r_y = snd (lo_resource_pos lo i),
     r_collected = False, r_room = room\<rparr>"

definition initial_rooms :: "int \<Rightarrow> room_rec" where
  "initial_rooms k =
    (if k = 1
     then \<lparr>rm_x = room_x_offset, rm_y = room_y_offset,
            rm_width = ROOM_WIDTH, rm_height = ROOM_HEIGHT\<rparr>
     else \<lparr>rm_x = room_x_offset + ROOM_WIDTH + 150, rm_y = room_y_offset,
            rm_width = ROOM_WIDTH, rm_height = ROOM_HEIGHT\<rparr>)"

definition reset :: "game \<Rightarrow> layout \<Rightarrow> game" where
  "reset g lo =
    g\<lparr>running := True,
      game_over := False,
      resources_collected := 0,
      enemies_killed := 0,
      door_opened := False,
      current_room := 1,
      frame := 0,
      door_unlock_effect := False,
      door_unlock_timer := - 1,
      lagged_player_action := IDLE,
      player := \<lparr>p_x = room_x_offset + 150, p_y = room_y_offset + 150, p_health = 100,
                  p_action = IDLE, p_speed = PLAYER_SPEED, p_resources_collected = 0,
                  p_enemies_killed = 0\<rparr>,
      npc := \<lparr>n_x = room_x_offset + 100, n_y = room_y_offset + 100,
               n_emotion = ANTICIPATION, n_emotion_lagged = ANTICIPATION,
               n_reaction = FOLLOW, n_speed = NPC_SPEED, n_attack_cooldown = 0\<rparr>,
      rooms := initial_rooms,
      obstacles := lo_obstacles lo,
      enemies := map (spawn_enemy lo 1) [0..<7] @ map (spawn_enemy lo 2) [7..<15],
      resources := map (spawn_resource lo 1) [0..<2] @ map (spawn_resource lo 2) [2..<4],
      door := \<lparr>d_x = rm_x (initial_rooms 1) + ROOM_WIDTH,
                d_y = rm_y (initial_rooms 1) + floordiv ROOM_HEIGHT 2 - 50,
                d_width = 150, d_height = 100, d_open = False\<rparr>,
      exit_zone := \<lparr>x_x = rm_x (initial_rooms 2) + ROOM_WIDTH - 70,
                     x_y = rm_y (initial_rooms 2) + floordiv ROOM_HEIGHT 2 - 40,
                     x_width = 60, x_height = 80, x_room = 2\<rparr>\<rparr>"

text \<open>
  \<open>Game.__init__\<close>: the fields set before \<open>reset\<close>, then \<open>reset\<close>. The record's other
  fields are overwritten by \<open>reset\<close>, whatever they start as.
\<close>

definition new_game :: "int \<Rightarrow> string option \<Rightarrow> string option \<Rightarrow> layout \<Rightarrow> game" where
  "new_game time_limit pid cond lo =
    reset
      \<lparr>running = True, game_over = False, debug_mode = False, participant_id = pid,
       condition = cond, game_time_limit = time_limit, last_room_transition = 0,
       room_transition_cooldown = 500, state = START_SCREEN, frame = 0,
       resources_collected = 0, enemies_killed = 0, door_opened = False, current_room = 1,
       door_unlock_effect = False, door_unlock_timer = - 1, lagged_player_action = IDLE,
       player = \<lparr>p_x = 0, p_y = 0, p_health = 100, p_action = IDLE, p_speed = PLAYER_SPEED,
                 p_resources_collected = 0, p_enemies_killed = 0\<rparr>,
       npc = \<lparr>n_x = 0, n_y = 0, n_emotion = ANTICIPATION, n_emotion_lagged = ANTICIPATION,
              n_reaction = FOLLOW, n_speed = NPC_SPEED, n_attack_cooldown = 0\<rparr>,
       rooms = initial_rooms, obstacles = lo_obstacles lo, enemies = [], resources = [],
       door = \<lparr>d_x = 0, d_y = 0, d_width = 150, d_height = 100, d_open = False\<rparr>,
       exit_zone = \<lparr>x_x = 0, x_y = 0, x_width = 60, x_height = 80, x_room = 2\<rparr>\<rparr>
      lo"

section \<open>Geometry queries\<close>

text \<open>
  \<open>is_valid_move\<close>: the loop over the current room's obstacles, returning False at the
  first obstacle whose centre is closer than \<open>(OBSTACLE_SIZE + size) / 2\<close> (\<open>sz\<close> below).
\<close>

fun clear_of :: "(real \<times> real) list \<Rightarrow> real \<Rightarrow> real \<Rightarrow> real \<Rightarrow> bool" where
  "clear_of [] x y sz = True"
| "clear_of ((obs_x, obs_y) # rest) x y sz =
    (if sqrt ((x - obs_x)\<^sup>2 + (y - obs_y)\<^sup>2) < (OBSTACLE_SIZE + sz) / 2 then False
     else clear_of rest x y sz)"

definition is_valid_move :: "game \<Rightarrow> real \<Rightarrow> real \<Rightarrow> real \<Rightarrow> bool" where
  "is_valid_move g x y sz = clear_of (obstacles g (current_room g)) x y sz"

text \<open>
  \<open>get_nearest_enemy_distance\<close> and \<open>get_nearest_resource_distance\<close>. The running minimum
  starts at \<open>float('inf')\<close>, which is \<open>None\<close> here; the final test
  \<open>min_distance != float('inf')\<close> is the case distinction on it.
\<close>

fun min_upd :: "real option \<Rightarrow> real \<Rightarrow> real option" where
  "min_upd None d = Some d"
| "min_upd (Some m) d = Some (min m d)"

fun nearest_enemy_loop :: "game \<Rightarrow> enemy list \<Rightarrow> real option \<Rightarrow> real option" where
  "nearest_enemy_loop g [] min_distance = min_distance"
| "nearest_enemy_loop g (enemy # rest) min_distance =
    (if e_room enemy = current_room g \<and> e_alive enemy
     then nearest_enemy_loop g rest
            (min_upd min_distance
               (sqrt ((p_x (player g) - e_x enemy)\<^sup>2 + (p_y (player g) - e_y enemy)\<^sup>2)))
     else nearest_enemy_loop g rest min_distance)"

definition get_nearest_enemy_distance :: "game \<Rightarrow> real" where
  "get_nearest_enemy_distance g =
    (case nearest_enemy_loop g (enemies g) None of None \<Rightarrow> 1000 | Some d \<Rightarrow> d)"

fun nearest_resource_loop :: "game \<Rightarrow> resource list \<Rightarrow> real option \<Rightarrow> real option" where
  "nearest_resource_loop g [] min_distance = min_distance"
| "nearest_resource_loop g (resource # rest) min_distance =
    (if r_room resource = current_room g \<and> \<not> r_collected resource
     then nearest_resource_loop g rest
            (min_upd min_distance
               (sqrt ((p_x (player g) - r_x resource)\<^sup>2 + (p_y (player g) - r_y resource)\<^sup>2)))
     else nearest_resource_loop g rest min_distance)"

definition get_nearest_resource_distance :: "game \<Rightarrow> real" where
  "get_nearest_resource_distance g =
    (case nearest_resource_loop g (resources g) None of None \<Rightarrow> 1000 | Some d \<Rightarrow> d)"

section \<open>The companion\<close>

definition update_npc_reaction :: "game \<Rightarrow> game" where
  "update_npc_reaction g =
    g\<lparr>npc := (npc g)\<lparr>n_reaction :=
      (case n_emotion (npc g) of
         ANTICIPATION \<Rightarrow> FOLLOW
       | HAPPINESS \<Rightarrow> NOTIFY_RESOURCE
       | FEAR \<Rightarrow> NOTIFY_DANGER
       | ANGER \<Rightarrow> ATTACK_ENEMY
       | SURPRISE \<Rightarrow> NOTIFY_SURPRISE
       | SADNESS \<Rightarrow> PROVIDE_HEALING)\<rparr>\<rparr>"

definition update_npc_emotion :: "strategy \<Rightarrow> game \<Rightarrow> game" where
  "update_npc_emotion decide g =
    (let g = g\<lparr>npc := (npc g)\<lparr>n_emotion_lagged := n_emotion (npc g)\<rparr>\<rparr>;
         g = g\<lparr>npc := (npc g)\<lparr>n_emotion :=
               decide (p_health (player g)) (get_nearest_enemy_distance g)
                 (get_nearest_resource_distance g) (lagged_player_action g) (current_room g)
                 (p_x (player g)) (p_y (player g)) (n_x (npc g)) (n_y (npc g))
                 (p_resources_collected (player g)) (p_enemies_killed (player g))
                 (n_emotion_lagged (npc g)) (p_action (player g))\<rparr>\<rparr>
     in update_npc_reaction g)"

definition IDEAL_DISTANCE :: real where "IDEAL_DISTANCE = 60"
definition MIN_DISTANCE :: real where "MIN_DISTANCE = 40"

text \<open>\<open>self.npc["x"] += ddx; self.npc["y"] += ddy\<close>\<close>

definition npc_shift :: "game \<Rightarrow> real \<Rightarrow> real \<Rightarrow> game" where
  "npc_shift g ddx ddy = g\<lparr>npc := (npc g)\<lparr>n_x := n_x (npc g) + ddx, n_y := n_y (npc g) + ddy\<rparr>\<rparr>"

text \<open>
  The branches of \<open>update_npc_position\<close>, one per reaction. Each returns the game and the
  local flag \<open>moved\<close>.
\<close>

definition npc_follow :: "game \<Rightarrow> game \<times> bool" where
  "npc_follow g =
    (let dx = p_x (player g) - n_x (npc g);
         dy = p_y (player g) - n_y (npc g);
         dist = sqrt (dx\<^sup>2 + dy\<^sup>2)
     in if dist > 0 then
          (let dx = dx / dist; dy = dy / dist in
           if dist > IDEAL_DISTANCE + 10 then
             (npc_shift g (dx * n_speed (npc g) * (3 / 2)) (dy * n_speed (npc g) * (3 / 2)), True)
           else if dist < MIN_DISTANCE then
             (npc_shift g (dx * n_speed (npc g) * (- 1 / 2)) (dy * n_speed (npc g) * (- 1 / 2)),
              True)
           else if dist > IDEAL_DISTANCE then
             (if dist > IDEAL_DISTANCE + 5 then
                (npc_shift g (dx * n_speed (npc g) * 1) (dy * n_speed (npc g) * 1), True)
              else (g, False))
           else (g, False))
        else (g, False))"

definition npc_notify :: "game \<Rightarrow> game \<times> bool" where
  "npc_notify g =
    (let dx = p_x (player g) - n_x (npc g);
         dy = p_y (player g) - n_y (npc g);
         dist = sqrt (dx\<^sup>2 + dy\<^sup>2)
     in if dist > IDEAL_DISTANCE * (3 / 2) then
          (npc_shift g (dx / dist * n_speed (npc g) * (6 / 5))
             (dy / dist * n_speed (npc g) * (6 / 5)), True)
        else (g, False))"

text \<open>
  The search for the nearest alive enemy of the room: \<open>best\<close> is the pair
  \<open>(nearest_enemy, min_distance)\<close>, \<open>None\<close> while they are \<open>None\<close> and \<open>float('inf')\<close>.
\<close>

fun nearest_to_npc :: "game \<Rightarrow> enemy list \<Rightarrow> nat \<Rightarrow> (nat \<times> real) option \<Rightarrow> (nat \<times> real) option"
where
  "nearest_to_npc g [] i best = best"
| "nearest_to_npc g (enemy # rest) i best =
    (if e_room enemy = current_room g \<and> e_alive enemy then
       (let d = sqrt ((n_x (npc g) - e_x enemy)\<^sup>2 + (n_y (npc g) - e_y enemy)\<^sup>2) in
        if (case best of None \<Rightarrow> True | Some (_, min_distance) \<Rightarrow> d < min_distance)
        then nearest_to_npc g rest (Suc i) (Some (i, d))
        else nearest_to_npc g rest (Suc i) best)
     else nearest_to_npc g rest (Suc i) best)"

text \<open>
  The index found by the search is always inside \<open>self.enemies\<close> (lemma
  \<open>nearest_to_npc_bound\<close>), so the indexing below never fails.
\<close>

definition npc_attack_enemy :: "game \<Rightarrow> game \<times> bool" where
  "npc_attack_enemy g =
    (case nearest_to_npc g (enemies g) 0 None of
       None \<Rightarrow> (g, False)
     | Some (nearest_enemy, min_distance) \<Rightarrow>
         if min_distance > ATTACK_RADIUS + 5 then
           (let dx = e_x (enemies g ! nearest_enemy) - n_x (npc g);
                dy = e_y (enemies g ! nearest_enemy) - n_y (npc g);
                dist = sqrt (dx\<^sup>2 + dy\<^sup>2)
            in if dist > 0 then
                 (npc_shift g (dx / dist * n_speed (npc g) * (6 / 5))
                    (dy / dist * n_speed (npc g) * (6 / 5)), True)
               else (g, False))
         else if min_distance < ATTACK_RADIUS \<and> n_attack_cooldown (npc g) = 0 then
           (let target = enemies g ! nearest_enemy;
                target = target\<lparr>e_health := e_health target - NPC_DAMAGE\<rparr>;
                g = g\<lparr>enemies := (enemies g)[nearest_enemy := target],
                      npc := (npc g)\<lparr>n_attack_cooldown := 30\<rparr>\<rparr>
            in if e_health target \<le> 0 then
                 (g\<lparr>enemies := (enemies g)[nearest_enemy := target\<lparr>e_alive := False\<rparr>],
                    player := (player g)\<lparr>p_enemies_killed := p_enemies_killed (player g) + 1\<rparr>,
                    enemies_killed := enemies_killed g + 1\<rparr>, False)
               else (g, False))
         else (g, False))"

definition npc_provide_healing :: "game \<Rightarrow> game \<times> bool" where
  "npc_provide_healing g =
    (let dx = p_x (player g) - n_x (npc g);
         dy = p_y (player g) - n_y (npc g);
         dist = sqrt (dx\<^sup>2 + dy\<^sup>2)
     in if dist > ATTACK_RADIUS + 5 then
          (npc_shift g (dx / dist * n_speed (npc g) * (3 / 2))
             (dy / dist * n_speed (npc g) * (3 / 2)), True)
        else
          (let healing_amount = 10 in
           (g\<lparr>player := (player g)\<lparr>p_health := min (p_health (player g) + healing_amount) 100\<rparr>\<rparr>,
            False)))"

definition npc_react :: "game \<Rightarrow> game \<times> bool" where
  "npc_react g =
    (case n_reaction (npc g) of
       FOLLOW \<Rightarrow> npc_follow g
     | NOTIFY_RESOURCE \<Rightarrow> npc_notify g
     | NOTIFY_DANGER \<Rightarrow> npc_notify g
     | ATTACK_ENEMY \<Rightarrow> npc_attack_enemy g
     | NOTIFY_SURPRISE \<Rightarrow> (g, False)
     | PROVIDE_HEALING \<Rightarrow> npc_provide_healing g)"

text \<open>Python's \<open>round(x)\<close> with one argument: to the nearest integer, ties to even.\<close>

definition py_round :: "real \<Rightarrow> int" where
  "py_round x =
    (let f = \<lfloor>x\<rfloor>; r = x - of_int f
     in if r < 1 / 2 then f else if 1 / 2 < r then f + 1 else if even f then f else f + 1)"

text \<open>
  The end of \<open>update_npc_position\<close>, in three steps: the validity check of the new
  position with the revert to \<open>(old_x, old_y)\<close>, the clamp into the current room, and the
  rounding when the companion did not move.
\<close>

definition npc_revert :: "real \<Rightarrow> real \<Rightarrow> game \<Rightarrow> game" where
  "npc_revert old_x old_y g =
    (if \<not> is_valid_move g (n_x (npc g)) (n_y (npc g)) NPC_SIZE
     then g\<lparr>npc := (npc g)\<lparr>n_x := old_x, n_y := old_y\<rparr>\<rparr> else g)"

definition npc_clamp :: "game \<Rightarrow> game" where
  "npc_clamp g =
    (let current = rooms g (current_room g);
         g = g\<lparr>npc := (npc g)\<lparr>n_x :=
               max (rm_x current + floordiv NPC_SIZE 2)
                 (min (n_x (npc g)) (rm_x current + rm_width current - floordiv NPC_SIZE 2))\<rparr>\<rparr>
     in g\<lparr>npc := (npc g)\<lparr>n_y :=
           max (rm_y current + floordiv NPC_SIZE 2)
             (min (n_y (npc g)) (rm_y current + rm_height current - floordiv NPC_SIZE 2))\<rparr>\<rparr>)"

definition npc_round :: "bool \<Rightarrow> game \<Rightarrow> game" where
  "npc_round moved g =
    (if \<not> moved
     then g\<lparr>npc := (npc g)\<lparr>n_x := of_int (py_round (n_x (npc g))),
                            n_y := of_int (py_round (n_y (npc g)))\<rparr>\<rparr>
     else g)"

definition npc_cooldown :: "game \<Rightarrow> game" where
  "npc_cooldown g =
    (if n_attack_cooldown (npc g) > 0
     then g\<lparr>npc := (npc g)\<lparr>n_attack_cooldown := n_attack_cooldown (npc g) - 1\<rparr>\<rparr> else g)"

definition update_npc_position :: "game \<Rightarrow> game" where
  "update_npc_position g =
    (let g = npc_cooldown g;
         old_x = n_x (npc g);
         old_y = n_y (npc g);
         (g, moved) = npc_react g;
         g = npc_revert old_x old_y g;
         g = npc_clamp g
     in npc_round moved g)"

section \<open>Enemies\<close>

text \<open>
  The pursuit step of \<open>update_enemies\<close> for one enemy at \<open>(ex, ey)\<close> (its position after
  the jitter) with the normalised direction \<open>(dx, dy)\<close> to the player: the nested
  \<open>if not self.is_valid_move(...)\<close> blocks that replace \<open>(new_x, new_y)\<close>, then the final
  \<open>if self.is_valid_move(new_x, new_y, ENEMY_SIZE)\<close> that moves the enemy. The result is the
  enemy's position after the step.
\<close>

definition pursue :: "game \<Rightarrow> enemy_draw \<Rightarrow> real \<Rightarrow> real \<Rightarrow> real \<Rightarrow> real \<Rightarrow> real \<Rightarrow> real \<times> real"
where
  "pursue g draw ex ey speed dx dy =
    (let new = (ex + dx * speed, ey + dy * speed);
         new =
          (if \<not> is_valid_move g (fst new) (snd new) ENEMY_SIZE then
             (let new = (ex + dx * speed, ey);
                  new =
                   (if \<not> is_valid_move g (fst new) (snd new) ENEMY_SIZE then
                      (let new = (ex, ey + dy * speed);
                           new =
                            (if \<not> is_valid_move g (fst new) (snd new) ENEMY_SIZE
                                \<and> u_chance draw < 3 / 10 then
                               (let angle = uniform 0 (2 * pi) (u_angle draw)
                                in (ex + cos angle * speed, ey + sin angle * speed))
                             else new)
                       in new)
                    else new)
              in new)
           else new)
     in if is_valid_move g (fst new) (snd new) ENEMY_SIZE then new else (ex, ey))"

text \<open>
  One iteration of the loop of \<open>update_enemies\<close>, for an alive enemy of the current room.
  \<open>enemy_step\<close> is the motion: the jitter, the pursuit within the detection radius, the
  revert to \<open>(old_x, old_y)\<close> when the final position is invalid, the clamp into the room.
  It yields the enemy's new position and \<open>player_distance\<close>, which is measured after the
  jitter and decides the damage.
\<close>

definition enemy_step :: "game \<Rightarrow> enemy_draw \<Rightarrow> enemy \<Rightarrow> real \<times> real \<times> real" where
  "enemy_step g draw enemy =
    (let old_x = e_x enemy;
         old_y = e_y enemy;
         x = e_x enemy
             + uniform (- e_speed enemy * (1 / 2)) (e_speed enemy * (1 / 2)) (u_jitter_x draw);
         y = e_y enemy
             + uniform (- e_speed enemy * (1 / 2)) (e_speed enemy * (1 / 2)) (u_jitter_y draw);
         player_distance = sqrt ((p_x (player g) - x)\<^sup>2 + (p_y (player g) - y)\<^sup>2);
         (x, y) =
           (if player_distance < ENEMY_DETECTION_RADIUS then
              (let dx = p_x (player g) - x; dy = p_y (player g) - y
               in if player_distance > 0
                  then pursue g draw x y (e_speed enemy)
                         (dx / player_distance) (dy / player_distance)
                  else (x, y))
            else (x, y));
         (x, y) = (if \<not> is_valid_move g x y ENEMY_SIZE then (old_x, old_y) else (x, y));
         room = rooms g (current_room g);
         x = max (rm_x room + floordiv ENEMY_SIZE 2)
               (min x (rm_x room + rm_width room - floordiv ENEMY_SIZE 2));
         y = max (rm_y room + floordiv ENEMY_SIZE 2)
               (min y (rm_y room + rm_height room - floordiv ENEMY_SIZE 2))
     in (x, y, player_distance))"

text \<open>
  The loop changes the enemy and the player's health only; everything else it reads from
  the game is constant during the loop, so an iteration takes the game, the enemy and
  the health so far.
\<close>

definition update_enemy :: "game \<Rightarrow> enemy_draw \<Rightarrow> enemy \<Rightarrow> real \<Rightarrow> enemy \<times> real" where
  "update_enemy g draw enemy health =
    (if e_room enemy = current_room g \<and> e_alive enemy then
       (let (x, y, player_distance) = enemy_step g draw enemy;
            enemy = enemy\<lparr>e_x := x, e_y := y\<rparr>;
            health =
              (if player_distance < ATTACK_RADIUS
               then max 0 (health - ENEMY_DAMAGE / of_int FPS) else health)
        in (enemy, health))
     else (enemy, health))"

fun enemies_loop ::
  "game \<Rightarrow> (nat \<Rightarrow> enemy_draw) \<Rightarrow> nat \<Rightarrow> enemy list \<Rightarrow> real \<Rightarrow> enemy list \<times> real" where
  "enemies_loop g rand i [] health = ([], health)"
| "enemies_loop g rand i (enemy # rest) health =
    (let (enemy', health') = update_enemy g (rand i) enemy health;
         (rest', health'') = enemies_loop g rand (Suc i) rest health'
     in (enemy' # rest', health''))"

definition update_enemies :: "(nat \<Rightarrow> enemy_draw) \<Rightarrow> game \<Rightarrow> game" where
  "update_enemies rand g =
    (let (es, health) = enemies_loop g rand 0 (enemies g) (p_health (player g))
     in g\<lparr>enemies := es, player := (player g)\<lparr>p_health := health\<rparr>\<rparr>)"

section \<open>Resources and the door\<close>

text \<open>
  One iteration of the loop of \<open>check_resource_collection\<close>: the resource after it and
  the game after it (the list \<open>self.resources\<close> itself is written back after the loop).
\<close>

definition collect :: "game \<Rightarrow> resource \<Rightarrow> resource \<times> game" where
  "collect g resource =
    (if r_room resource = current_room g \<and> \<not> r_collected resource \<and>
        sqrt ((p_x (player g) - r_x resource)\<^sup>2 + (p_y (player g) - r_y resource)\<^sup>2)
          < ATTACK_RADIUS
     then
       (let g = g\<lparr>player := (player g)
                    \<lparr>p_resources_collected := p_resources_collected (player g) + 1\<rparr>\<rparr>;
            g = g\<lparr>resources_collected := resources_collected g + 1\<rparr>;
            g = g\<lparr>player := (player g)
                    \<lparr>p_health := min (p_health (player g) + RESOURCE_HEAL) 100\<rparr>\<rparr>;
            g = (if resources_collected g \<ge> 2 \<and> \<not> d_open (door g)
                 then g\<lparr>door := (door g)\<lparr>d_open := True\<rparr>,
                        door_unlock_effect := True, door_unlock_timer := - 1\<rparr>
                 else g)
        in (resource\<lparr>r_collected := True\<rparr>, g))
     else (resource, g))"

fun collect_loop :: "game \<Rightarrow> resource list \<Rightarrow> resource list \<times> game" where
  "collect_loop g [] = ([], g)"
| "collect_loop g (resource # rest) =
    (let (resource', g') = collect g resource;
         (rest', g'') = collect_loop g' rest
     in (resource' # rest', g''))"

definition check_resource_collection :: "game \<Rightarrow> game" where
  "check_resource_collection g =
    (let (rs, g') = collect_loop g (resources g) in g'\<lparr>resources := rs\<rparr>)"

definition is_player_at_door :: "game \<Rightarrow> bool" where
  "is_player_at_door g =
    (let player_center_x = p_x (player g);
         player_center_y = p_y (player g);
         door_center_x = d_x (door g) + d_width (door g) / 2;
         door_center_y = d_y (door g) + d_height (door g) / 2;
         dx = \<bar>player_center_x - door_center_x\<bar>;
         dy = \<bar>player_center_y - door_center_y\<bar>;
         door_x_threshold = d_width (door g) / 2 + PLAYER_SIZE / 2;
         door_y_threshold = d_height (door g) / 2 + PLAYER_SIZE / 2
     in dx < door_x_threshold \<and> dy < door_y_threshold)"

definition check_door_interaction :: "int \<Rightarrow> game \<Rightarrow> game" where
  "check_door_interaction current_time g =
    (if is_player_at_door g then
       (if current_time - last_room_transition g > room_transition_cooldown g then
          (if d_open (door g) then
             (let g = (if door_unlock_effect g then g\<lparr>door_unlock_effect := False\<rparr> else g)
              in if current_room g = 1 then
                   (let g = g\<lparr>current_room := 2\<rparr>;
                        g = g\<lparr>player := (player g)
                                \<lparr>p_x := rm_x (rooms g 2) + 50,
                                 p_y := rm_y (rooms g 2) + ROOM_HEIGHT / 2\<rparr>\<rparr>;
                        g = g\<lparr>npc := (npc g)
                                \<lparr>n_x := p_x (player g) - 30, n_y := p_y (player g)\<rparr>\<rparr>
                    in g\<lparr>last_room_transition := current_time\<rparr>)
                 else
                   (let g = g\<lparr>current_room := 1\<rparr>;
                        g = g\<lparr>player := (player g)
                                \<lparr>p_x := rm_x (rooms g 1) + ROOM_WIDTH - 50,
                                 p_y := rm_y (rooms g 1) + ROOM_HEIGHT / 2\<rparr>\<rparr>;
                        g = g\<lparr>npc := (npc g)
                                \<lparr>n_x := p_x (player g) - 30, n_y := p_y (player g)\<rparr>\<rparr>
                    in g\<lparr>last_room_transition := current_time\<rparr>))
           else
             (if p_x (player g) < d_x (door g)
              then g\<lparr>player := (player g)\<lparr>p_x := p_x (player g) - 10\<rparr>\<rparr>
              else g\<lparr>player := (player g)\<lparr>p_x := p_x (player g) + 10\<rparr>\<rparr>))
        else g)
     else g)"

section \<open>The exit\<close>

text \<open>
  \<open>pygame.Rect\<close> and \<open>Rect.colliderect\<close> belong to the pygame library. A \<open>Rect\<close> stores
  integers: float arguments are truncated towards zero. Two rectangles of positive width
  and height collide when their interiors overlap; a rectangle of width or height 0
  collides with nothing.
\<close>

record rect =
  rect_x :: int
  rect_y :: int
  rect_w :: int
  rect_h :: int

definition py_int :: "real \<Rightarrow> int" where
  "py_int v = (if 0 \<le> v then \<lfloor>v\<rfloor> else \<lceil>v\<rceil>)"

definition Rect :: "real \<Rightarrow> real \<Rightarrow> real \<Rightarrow> real \<Rightarrow> rect" where
  "Rect x y w h = \<lparr>rect_x = py_int x, rect_y = py_int y, rect_w = py_int w, rect_h = py_int h\<rparr>"

definition colliderect :: "rect \<Rightarrow> rect \<Rightarrow> bool" where
  "colliderect a b =
    (if rect_w a = 0 \<or> rect_h a = 0 \<or> rect_w b = 0 \<or> rect_h b = 0 then False
     else min (rect_x a) (rect_x a + rect_w a) < max (rect_x b) (rect_x b + rect_w b)
        \<and> min (rect_y a) (rect_y a + rect_h a) < max (rect_y b) (rect_y b + rect_h b)
        \<and> max (rect_x a) (rect_x a + rect_w a) > min (rect_x b) (rect_x b + rect_w b)
        \<and> max (rect_y a) (rect_y a + rect_h a) > min (rect_y b) (rect_y b + rect_h b))"

text \<open>
  The feedback of \<open>check_exit_interaction\<close> when the gate is closed: which of its three
  messages the function prints, with the numbers \<open>missing_resources\<close> and
  \<open>missing_enemies\<close> it computes.
\<close>

datatype feedback = NEED_BOTH int int | NEED_RESOURCES int | NEED_ENEMIES int

text \<open>
  \<open>check_exit_interaction\<close>: the game after it, and the feedback message it prints (the
  messages are printed in debug mode only; \<open>None\<close> when it prints none of the three).
\<close>

definition check_exit_interaction :: "game \<Rightarrow> game \<times> feedback option" where
  "check_exit_interaction g =
    (if current_room g = 2 then
       (let player_rect = Rect (p_x (player g) - PLAYER_SIZE / 2)
                            (p_y (player g) - PLAYER_SIZE / 2) PLAYER_SIZE PLAYER_SIZE;
            exit_rect = Rect (x_x (exit_zone g)) (x_y (exit_zone g))
                          (x_width (exit_zone g)) (x_height (exit_zone g))
        in if colliderect player_rect exit_rect then
             (if p_enemies_killed (player g) \<ge> 8 \<and> p_resources_collected (player g) \<ge> 4
              then (g\<lparr>state := COMPLETED\<rparr>, None)
              else
                (let missing_resources = max 0 (4 - p_resources_collected (player g));
                     missing_enemies = max 0 (5 - p_enemies_killed (player g))
                 in (g,
                     if debug_mode g then
                       (if missing_resources > 0 \<and> missing_enemies > 0
                          then Some (NEED_BOTH missing_resources missing_enemies)
                        else if missing_resources > 0 then Some (NEED_RESOURCES missing_resources)
                        else if missing_enemies > 0 then Some (NEED_ENEMIES missing_enemies)
                        else None)
                     else None)))
           else (g, None))
     else (g, None))"

section \<open>The player's attack\<close>

text \<open>One iteration of the loop of \<open>check_attack\<close>: the enemy and the game after it.\<close>

definition strike :: "game \<Rightarrow> enemy \<Rightarrow> enemy \<times> game" where
  "strike g enemy =
    (if e_room enemy = current_room g \<and> e_alive enemy then
       (if sqrt ((p_x (player g) - e_x enemy)\<^sup>2 + (p_y (player g) - e_y enemy)\<^sup>2)
            < ATTACK_RADIUS
        then
          (let enemy = enemy\<lparr>e_health := e_health enemy - PLAYER_DAMAGE\<rparr>
           in if e_health enemy \<le> 0 then
                (enemy\<lparr>e_alive := False\<rparr>,
                 g\<lparr>player := (player g)\<lparr>p_enemies_killed := p_enemies_killed (player g) + 1\<rparr>,
                   enemies_killed := enemies_killed g + 1\<rparr>)
              else (enemy, g))
        else (enemy, g))
     else (enemy, g))"

fun strike_loop :: "game \<Rightarrow> enemy list \<Rightarrow> enemy list \<times> game" where
  "strike_loop g [] = ([], g)"
| "strike_loop g (enemy # rest) =
    (let (enemy', g') = strike g enemy;
         (rest', g'') = strike_loop g' rest
     in (enemy' # rest', g''))"

definition check_attack :: "game \<Rightarrow> game" where
  "check_attack g =
    (if p_action (player g) = ATTACK
     then (let (es, g') = strike_loop g (enemies g) in g'\<lparr>enemies := es\<rparr>)
     else g)"

section \<open>Event handling\<close>

text \<open>
  The body of the event loop of \<open>handle_playing_events\<close> for one event; \<open>ctrl\<close> is
  \<open>pygame.key.get_mods() & KMOD_CTRL\<close>.
\<close>

definition handle_playing_event :: "bool \<Rightarrow> game \<Rightarrow> event \<Rightarrow> game" where
  "handle_playing_event ctrl g ev =
    (case ev of
       QUIT \<Rightarrow> g
     | KEYDOWN k \<Rightarrow>
         (if k = K_ESCAPE then g
          else if k = K_r then g
          else if k = K_SPACE then check_attack (g\<lparr>player := (player g)\<lparr>p_action := ATTACK\<rparr>\<rparr>)
          else if k = K_d \<and> ctrl then g\<lparr>debug_mode := \<not> debug_mode g\<rparr>
          else if debug_mode g \<and> k = K_o then g\<lparr>door := (door g)\<lparr>d_open := True\<rparr>\<rparr>
          else if debug_mode g \<and> k = K_1 then
            g\<lparr>current_room := 1,
              player := (player g)\<lparr>p_x := rm_x (rooms g 1) + floordiv ROOM_WIDTH 2,
                                    p_y := rm_y (rooms g 1) + floordiv ROOM_HEIGHT 2\<rparr>\<rparr>
          else if debug_mode g \<and> k = K_2 then
            g\<lparr>current_room := 2,
              player := (player g)\<lparr>p_x := rm_x (rooms g 2) + floordiv ROOM_WIDTH 2,
                                    p_y := rm_y (rooms g 2) + floordiv ROOM_HEIGHT 2\<rparr>\<rparr>
          else g)
     | KEYUP k \<Rightarrow>
         (if k = K_SPACE then
            (if p_action (player g) = ATTACK
             then g\<lparr>player := (player g)\<lparr>p_action := IDLE\<rparr>\<rparr> else g)
          else g)
     | OTHER_EVENT \<Rightarrow> g)"

text \<open>
  The continuous key presses: the four independent \<open>if\<close> statements that move the player
  and set \<open>moved\<close>, then the update of the action.
\<close>

definition apply_keys :: "(key \<Rightarrow> bool) \<Rightarrow> game \<Rightarrow> game" where
  "apply_keys keys g =
    (let moved = False;
         (g, moved) = (if keys K_w \<or> keys K_UP
            then (g\<lparr>player := (player g)\<lparr>p_y := p_y (player g) - p_speed (player g)\<rparr>\<rparr>, True)
            else (g, moved));
         (g, moved) = (if keys K_s \<or> keys K_DOWN
            then (g\<lparr>player := (player g)\<lparr>p_y := p_y (player g) + p_speed (player g)\<rparr>\<rparr>, True)
            else (g, moved));
         (g, moved) = (if keys K_a \<or> keys K_LEFT
            then (g\<lparr>player := (player g)\<lparr>p_x := p_x (player g) - p_speed (player g)\<rparr>\<rparr>, True)
            else (g, moved));
         (g, moved) = (if keys K_d \<or> keys K_RIGHT
            then (g\<lparr>player := (player g)\<lparr>p_x := p_x (player g) + p_speed (player g)\<rparr>\<rparr>, True)
            else (g, moved))
     in if moved \<and> p_action (player g) \<noteq> ATTACK
          then g\<lparr>player := (player g)\<lparr>p_action := MOVE\<rparr>\<rparr>
        else if \<not> moved \<and> p_action (player g) \<noteq> ATTACK
          then g\<lparr>player := (player g)\<lparr>p_action := IDLE\<rparr>\<rparr>
        else g)"

text \<open>
  The end of \<open>handle_playing_events\<close>: the validity check of the player's new position
  with the revert to \<open>(old_x, old_y)\<close>, then the door interaction at an open door, or else
  the clamp into the current room.
\<close>

definition player_revert :: "real \<Rightarrow> real \<Rightarrow> game \<Rightarrow> game" where
  "player_revert old_x old_y g =
    (if \<not> is_valid_move g (p_x (player g)) (p_y (player g)) PLAYER_SIZE
     then g\<lparr>player := (player g)\<lparr>p_x := old_x, p_y := old_y\<rparr>\<rparr> else g)"

definition player_clamp :: "game \<Rightarrow> game" where
  "player_clamp g =
    (let current = rooms g (current_room g);
         g = g\<lparr>player := (player g)\<lparr>p_x :=
               max (rm_x current + floordiv PLAYER_SIZE 2)
                 (min (p_x (player g))
                    (rm_x current + rm_width current - floordiv PLAYER_SIZE 2))\<rparr>\<rparr>
     in g\<lparr>player := (player g)\<lparr>p_y :=
           max (rm_y current + floordiv PLAYER_SIZE 2)
             (min (p_y (player g))
                (rm_y current + rm_height current - floordiv PLAYER_SIZE 2))\<rparr>\<rparr>)"

definition handle_playing_events :: "tick_input \<Rightarrow> game \<Rightarrow> game" where
  "handle_playing_events inp g =
    (let g = foldl (handle_playing_event (ti_ctrl inp)) g (ti_events inp);
         old_x = p_x (player g);
         old_y = p_y (player g);
         g = apply_keys (ti_keys inp) g;
         g = player_revert old_x old_y g;
         at_door = is_player_at_door g
     in if at_door \<and> d_open (door g) then check_door_interaction (ti_ticks inp) g
        else player_clamp g)"

definition handle_start_screen_event :: "bool \<Rightarrow> game \<Rightarrow> event \<Rightarrow> game" where
  "handle_start_screen_event ctrl g ev =
    (case ev of
       QUIT \<Rightarrow> g
     | KEYDOWN k \<Rightarrow>
         (if k = K_ESCAPE then g
          else if k = K_RETURN \<or> k = K_SPACE then g\<lparr>state := PLAYING\<rparr>
          else if k = K_d \<and> ctrl then g\<lparr>debug_mode := \<not> debug_mode g\<rparr>
          else g)
     | KEYUP k \<Rightarrow> g
     | OTHER_EVENT \<Rightarrow> g)"

definition handle_start_screen_events :: "tick_input \<Rightarrow> game \<Rightarrow> game" where
  "handle_start_screen_events inp g =
    foldl (handle_start_screen_event (ti_ctrl inp)) g (ti_events inp)"

definition handle_completed_screen_event :: "game \<Rightarrow> event \<Rightarrow> game" where
  "handle_completed_screen_event g ev =
    (case ev of
       QUIT \<Rightarrow> g\<lparr>running := False\<rparr>
     | KEYDOWN k \<Rightarrow>
         (if k = K_ESCAPE then g\<lparr>running := False\<rparr>
          else if k = K_r then g
          else g)
     | KEYUP k \<Rightarrow> g
     | OTHER_EVENT \<Rightarrow> g)"

definition handle_completed_screen_events :: "tick_input \<Rightarrow> game \<Rightarrow> game" where
  "handle_completed_screen_events inp g =
    foldl handle_completed_screen_event g (ti_events inp)"

section \<open>One tick\<close>

text \<open>The one place where \<open>draw_game\<close> writes to the game: the door's unlock effect.\<close>

definition draw_game :: "game \<Rightarrow> game" where
  "draw_game g =
    (if door_unlock_effect g then
       (if door_unlock_timer g > 0 then
          (let g = g\<lparr>door_unlock_timer := door_unlock_timer g - 1\<rparr>
           in if door_unlock_timer g \<le> 0 then g\<lparr>door_unlock_effect := False\<rparr> else g)
        else g)
     else g)"

text \<open>
  The PLAYING branch of \<open>update\<close> up to and including \<open>draw_game\<close>, in the source's order.
\<close>

definition playing_step :: "tick_input \<Rightarrow> game \<Rightarrow> game" where
  "playing_step inp g =
    (let g = g\<lparr>frame := frame g + 1\<rparr>;
         g = g\<lparr>lagged_player_action := p_action (player g)\<rparr>;
         g = handle_playing_events inp g;
         g = update_npc_emotion (ti_decide inp) g;
         g = update_npc_position g;
         g = update_enemies (ti_rand inp) g;
         g = check_resource_collection g;
         g = fst (check_exit_interaction g)
     in draw_game g)"

text \<open>
  \<open>update\<close>. After the step of the PLAYING branch: the reset when the player's health is
  used up, then the time limit.
\<close>

definition update :: "game \<Rightarrow> tick_input \<Rightarrow> game" where
  "update g inp =
    (case state g of
       START_SCREEN \<Rightarrow> handle_start_screen_events inp g
     | COMPLETED \<Rightarrow> handle_completed_screen_events inp g
     | PLAYING \<Rightarrow>
         (let g = playing_step inp g;
              g = (if p_health (player g) \<le> 0 then reset g (ti_layout inp) else g)
          in if game_time_limit g > 0 then
               (if frame g \<ge> game_time_limit g * FPS then g\<lparr>state := COMPLETED\<rparr> else g)
             else g))"

section \<open>The session\<close>





text \<open>The game after the given ticks, whether or not the loop has ended by then.\<close>

definition ticks :: "game \<Rightarrow> tick_input list \<Rightarrow> game" where
  "ticks g inps = foldl update g inps"

section \<open>Notions used in the statements\<close>

text \<open>
  The distances from the player to the alive enemies of the current room, and to its
  uncollected resources.
\<close>

definition enemy_distances :: "game \<Rightarrow> real list" where
  "enemy_distances g =
    map (\<lambda>e. distance (p_x (player g)) (p_y (player g)) (e_x e) (e_y e))
      (filter (\<lambda>e. e_room e = current_room g \<and> e_alive e) (enemies g))"

definition resource_distances :: "game \<Rightarrow> real list" where
  "resource_distances g =
    map (\<lambda>r. distance (p_x (player g)) (p_y (player g)) (r_x r) (r_y r))
      (filter (\<lambda>r. r_room r = current_room g \<and> \<not> r_collected r) (resources g))"


text \<open>
  An enemy the player's attack reaches: alive, in the current room, closer than
  \<open>ATTACK_RADIUS\<close>. \<open>struck\<close> is such an enemy after the attack, \<open>slain\<close> says that the attack
  kills it, and \<open>add_kills n\<close> adds \<open>n\<close> to both kill counters.
\<close>

definition within_attack_reach :: "game \<Rightarrow> enemy \<Rightarrow> bool" where
  "within_attack_reach g e \<longleftrightarrow>
    e_room e = current_room g \<and> e_alive e \<and>
    distance (p_x (player g)) (p_y (player g)) (e_x e) (e_y e) < ATTACK_RADIUS"

definition struck :: "game \<Rightarrow> enemy \<Rightarrow> enemy" where
  "struck g e =
    (if within_attack_reach g e
     then e\<lparr>e_health := e_health e - PLAYER_DAMAGE,
            e_alive := \<not> e_health e - PLAYER_DAMAGE \<le> 0\<rparr>
     else e)"

definition slain :: "game \<Rightarrow> enemy \<Rightarrow> bool" where
  "slain g e \<longleftrightarrow> within_attack_reach g e \<and> e_health e - PLAYER_DAMAGE \<le> 0"

definition add_kills :: "int \<Rightarrow> game \<Rightarrow> game" where
  "add_kills n g =
    g\<lparr>player := (player g)\<lparr>p_enemies_killed := p_enemies_killed (player g) + n\<rparr>,
      enemies_killed := enemies_killed g + n\<rparr>"

text \<open>The player's health lies between 0 and 100.\<close>

definition health_ok :: "game \<Rightarrow> bool" where
  "health_ok g \<longleftrightarrow> 0 \<le> p_health (player g) \<and> p_health (player g) \<le> 100"

text \<open>
  The number of dead enemies in a list; the excess of the two kill counters over it
  (\<open>tally\<close>), which no part of a tick changes; and the relation between the enemy list
  before and after a piece of code that leaves every dead enemy exactly as it was.
\<close>

definition dead_count :: "enemy list \<Rightarrow> int" where
  "dead_count es = int (length (filter (\<lambda>e. \<not> e_alive e) es))"

definition tally :: "game \<Rightarrow> int \<times> int" where
  "tally g =
    (enemies_killed g - dead_count (enemies g),
     p_enemies_killed (player g) - dead_count (enemies g))"

definition dead_kept :: "enemy list \<Rightarrow> enemy list \<Rightarrow> bool" where
  "dead_kept es es' \<longleftrightarrow>
    length es' = length es \<and> (\<forall>j<length es. \<not> e_alive (es ! j) \<longrightarrow> es' ! j = es ! j)"

text \<open>
  A run lasts until a reset: \<open>update\<close> resets the whole entity store when the player's
  health is used up at the end of a tick. \<open>survives g inps\<close> says that none of the ticks
  \<open>inps\<close>, played from \<open>g\<close>, ends in a reset.
\<close>

fun survives :: "game \<Rightarrow> tick_input list \<Rightarrow> bool" where
  "survives g [] = True"
| "survives g (inp # rest) =
    ((state g = PLAYING \<longrightarrow> 0 < p_health (player (playing_step inp g)))
     \<and> survives (update g inp) rest)"

text \<open>
  The debug key of the door. \<open>debug_open_key ctrl dbg evs\<close> says that, handling the events
  \<open>evs\<close> of a tick that starts with debug mode \<open>dbg\<close>, the event loop meets an O key-down
  while debug mode is on (Ctrl+D key-downs toggle the mode on the way).
\<close>

fun debug_open_key :: "bool \<Rightarrow> bool \<Rightarrow> event list \<Rightarrow> bool" where
  "debug_open_key ctrl dbg [] = False"
| "debug_open_key ctrl dbg (ev # evs) =
    (if ev = KEYDOWN K_d \<and> ctrl then debug_open_key ctrl (\<not> dbg) evs
     else if ev = KEYDOWN K_o \<and> dbg then True
     else debug_open_key ctrl dbg evs)"

text \<open>Whenever at least two resources have been collected, the door is open.\<close>

definition door_inv :: "game \<Rightarrow> bool" where
  "door_inv g \<longleftrightarrow> (2 \<le> resources_collected g \<longrightarrow> d_open (door g))"

text \<open>A resource the player picks up: uncollected, in the current room, closer than 60.\<close>

definition pickup_reach :: "game \<Rightarrow> resource \<Rightarrow> bool" where
  "pickup_reach g r \<longleftrightarrow>
    r_room r = current_room g \<and> \<not> r_collected r \<and>
    distance (p_x (player g)) (p_y (player g)) (r_x r) (r_y r) < ATTACK_RADIUS"

text \<open>
  The fields of the game that belong to the session rather than to the entity store.
\<close>

definition session :: "game \<Rightarrow> int \<times> int \<times> bool \<times> string option \<times> string option \<times> GameState" where
  "session g = (frame g, game_time_limit g, running g, participant_id g, condition g, state g)"



text \<open>The current room is one of the two rooms.\<close>

definition room_ok :: "game \<Rightarrow> bool" where
  "room_ok g \<longleftrightarrow> current_room g = 1 \<or> current_room g = 2"

section \<open>Example states and inputs\<close>

text \<open>
  A layout as \<open>reset\<close> can sample it: three obstacles per room, outside the safe zones
  and at least 60 apart; seven enemies in room 1 and eight in room 2; two resources per
  room; every spawn point at least 70 from every obstacle. The first enemy spawns 40 to
  the right of the player's spawn point.
\<close>

definition demo_layout :: layout where
  "demo_layout =
    \<lparr>lo_obstacles = (\<lambda>k. if k = 1 then [(100, 500), (300, 600), (400, 150)]
                          else [(1000, 150), (1100, 550), (900, 600)]),
     lo_enemy_pos = (\<lambda>i. if i = 0 then (215, 225)
                          else if i < 7 then (500, 200 + 50 * real i)
                          else (1200, 50 * real i - 200)),
     lo_enemy_speed = (\<lambda>i. 3 / 2),
     lo_resource_pos = (\<lambda>i. if i = 0 then (300, 400) else if i = 1 then (200, 600)
                             else if i = 2 then (1000, 400) else (1300, 600))\<rparr>"

text \<open>
  A tick without events and without pressed keys. Its strategy answers SURPRISE (as the
  random strategy may), so the companion neither moves nor attacks; every jitter draw is
  \<open>1 / 2\<close>, the centre of the jitter interval.
\<close>

definition idle_input :: tick_input where
  "idle_input =
    \<lparr>ti_events = [], ti_keys = (\<lambda>k. False), ti_ctrl = False, ti_ticks = 1000,
     ti_decide = (\<lambda>_ _ _ _ _ _ _ _ _ _ _ _ _. SURPRISE),
     ti_rand = (\<lambda>i. \<lparr>u_jitter_x = 1 / 2, u_jitter_y = 1 / 2, u_chance = 1 / 2, u_angle = 0\<rparr>),
     ti_layout = demo_layout\<rparr>"

text \<open>
  A fresh game; the game after RETURN on the start screen; and that game while SPACE is
  held down since an earlier tick (the action stays ATTACK until the key is released).
\<close>

definition fresh_game :: game where
  "fresh_game = new_game 120 (Some ''P01'') (Some ''random'') demo_layout"

definition started_game :: game where
  "started_game = update fresh_game (idle_input\<lparr>ti_events := [KEYDOWN K_RETURN]\<rparr>)"

definition held_game :: game where
  "held_game = started_game\<lparr>player := (player started_game)\<lparr>p_action := ATTACK\<rparr>\<rparr>"

text \<open>The started game after a SPACE key-down event: the player has struck.\<close>

definition struck_game :: game where
  "struck_game = handle_playing_event False started_game (KEYDOWN K_SPACE)"

text \<open>
  The game after Ctrl+D and RETURN on the start screen (debug mode on, playing); a tick
  whose only event is an O key-down; and the game after that tick.
\<close>

definition debug_game :: game where
  "debug_game =
    update fresh_game (idle_input\<lparr>ti_events := [KEYDOWN K_d, KEYDOWN K_RETURN], ti_ctrl := True\<rparr>)"

definition press_o :: tick_input where
  "press_o = idle_input\<lparr>ti_events := [KEYDOWN K_o]\<rparr>"

definition opened_game :: game where
  "opened_game = update debug_game press_o"



text \<open>
  A game late in a run, in debug mode: all four resources collected, the door open, the
  first \<open>kills\<close> enemies killed, and the player standing on the exit of room 2.
\<close>

definition exit_game :: "int \<Rightarrow> game" where
  "exit_game kills =
    started_game
      \<lparr>debug_mode := True, current_room := 2, resources_collected := 4,
       enemies_killed := kills,
       door := (door started_game)\<lparr>d_open := True\<rparr>,
       resources := map (\<lambda>r. r\<lparr>r_collected := True\<rparr>) (resources started_game),
       enemies := map (\<lambda>e. e\<lparr>e_alive := False, e_health := 0\<rparr>)
                    (take (nat kills) (enemies started_game))
                  @ drop (nat kills) (enemies started_game),
       player := (player started_game)
                   \<lparr>p_x := 1335, p_y := 375, p_enemies_killed := kills,
                    p_resources_collected := 4\<rparr>\<rparr>"



section \<open>Unfolding the constants\<close>

lemmas game_consts =
  ROOM_WIDTH_def ROOM_HEIGHT_def WIDTH_def HEIGHT_def PLAYER_SIZE_def NPC_SIZE_def
  ENEMY_SIZE_def OBSTACLE_SIZE_def FPS_def MAX_HEALTH_def ENEMY_DAMAGE_def
  RESOURCE_HEAL_def ENEMY_DETECTION_RADIUS_def ATTACK_RADIUS_def PLAYER_DAMAGE_def
  NPC_DAMAGE_def PLAYER_SPEED_def NPC_SPEED_def ENEMY_SPEED_def

section \<open>Properties of the rule-based strategy\<close>

text \<open>
  The function in closed form: it raises exactly when the action is ATTACK and one of the
  two squares overflows, and returns the emotion of the priority chain otherwise.
\<close>

lemma determine_emotion_eq:
  "determine_emotion health enemy_prox resource_prox lagged_action level px py nx ny
      n_resources n_kills emotion_lagged action =
    (if action = ATTACK \<and> (square_overflows (px - nx) \<or> square_overflows (py - ny))
     then Inl OverflowError
     else Inr (if health \<le> 30 then SADNESS
               else if action = ATTACK \<and> distance px py nx ny < 60 then SURPRISE
               else if enemy_prox < 60 then ANGER
               else if enemy_prox < 125 then FEAR
               else if resource_prox < 150 then HAPPINESS
               else ANTICIPATION))"
  by (simp add: determine_emotion_def py_square_def distance_def Let_def)





section \<open>The nearest-distance queries\<close>

lemma fold_min_upd_Some:
  "fold (\<lambda>d m. min_upd m d) ds (Some a) = Some (Min (insert a (set ds)))"
proof (induction ds arbitrary: a)
  case Nil
  show ?case by simp
next
  case (Cons d ds)
  have "Min (insert (min a d) (set ds)) = Min (insert a (insert d (set ds)))"
    by (cases "set ds = {}") (simp_all add: min.assoc)
  with Cons show ?case by simp
qed

lemma fold_min_upd_None:
  "fold (\<lambda>d m. min_upd m d) ds None = (if ds = [] then None else Some (Min (set ds)))"
  by (cases ds) (simp_all add: fold_min_upd_Some)

lemma nearest_enemy_loop_fold:
  "nearest_enemy_loop g es m =
    fold (\<lambda>d m. min_upd m d)
      (map (\<lambda>e. distance (p_x (player g)) (p_y (player g)) (e_x e) (e_y e))
        (filter (\<lambda>e. e_room e = current_room g \<and> e_alive e) es)) m"
  by (induction es arbitrary: m) (simp_all add: distance_def)

lemma nearest_resource_loop_fold:
  "nearest_resource_loop g rs m =
    fold (\<lambda>d m. min_upd m d)
      (map (\<lambda>r. distance (p_x (player g)) (p_y (player g)) (r_x r) (r_y r))
        (filter (\<lambda>r. r_room r = current_room g \<and> \<not> r_collected r) rs)) m"
  by (induction rs arbitrary: m) (simp_all add: distance_def)

lemma get_nearest_enemy_distance_eq:
  "get_nearest_enemy_distance g =
    (if enemy_distances g = [] then 1000 else Min (set (enemy_distances g)))"
  by (simp add: get_nearest_enemy_distance_def nearest_enemy_loop_fold fold_min_upd_None
      enemy_distances_def)

lemma get_nearest_resource_distance_eq:
  "get_nearest_resource_distance g =
    (if resource_distances g = [] then 1000 else Min (set (resource_distances g)))"
  by (simp add: get_nearest_resource_distance_def nearest_resource_loop_fold fold_min_upd_None
      resource_distances_def)

text \<open>
  Claim C10. The sentinel of the nearest-distance queries is 1000:
  \<open>get_nearest_enemy_distance\<close> returns the minimum Euclidean distance from the player over
  the alive enemies of the current room, \<open>get_nearest_resource_distance\<close> the minimum over
  its uncollected resources, and each returns exactly 1000 when there is no such entity.
  1000 is above every threshold of the rule-based strategy: with both distances at the
  sentinel none of its proximity rules (150, 125, 60) fires, so that the strategy answers
  as its health and attack rules alone decide.
\<close>

theorem nearest_distance_sentinel:
  "get_nearest_enemy_distance g =
     (if enemy_distances g = [] then 1000 else Min (set (enemy_distances g)))
   \<and> get_nearest_resource_distance g =
     (if resource_distances g = [] then 1000 else Min (set (resource_distances g)))
   \<and> determine_emotion health 1000 1000 lagged_action level px py nx ny n_resources n_kills
        emotion_lagged action =
     (if action = ATTACK \<and> (square_overflows (px - nx) \<or> square_overflows (py - ny))
      then Inl OverflowError
      else Inr (if health \<le> 30 then SADNESS
                else if action = ATTACK \<and> distance px py nx ny < 60 then SURPRISE
                else ANTICIPATION))"
  by (simp add: get_nearest_enemy_distance_eq get_nearest_resource_distance_eq
      determine_emotion_eq)

section \<open>The enemies' fallback chain\<close>


section \<open>The attack loop in closed form\<close>

lemma add_kills_0 [simp]: "add_kills 0 g = g"
  by (simp add: add_kills_def)

lemma add_kills_add [simp]: "add_kills n (add_kills m g) = add_kills (m + n) g"
  by (simp add: add_kills_def add.assoc)

lemma reach_add_kills [simp]:
  "within_attack_reach (add_kills n g) e = within_attack_reach g e"
  by (simp add: within_attack_reach_def add_kills_def)

lemma struck_add_kills [simp]: "struck (add_kills n g) = struck g"
  by (rule ext) (simp add: struck_def)

lemma slain_add_kills [simp]: "slain (add_kills n g) = slain g"
  by (rule ext) (simp add: slain_def)

lemma strike_eq:
  "strike g e = (struck g e, add_kills (if slain g e then 1 else 0) g)"
  by (simp add: strike_def struck_def slain_def within_attack_reach_def distance_def
      add_kills_def Let_def)

lemma strike_loop_eq:
  "strike_loop g es = (map (struck g) es, add_kills (int (length (filter (slain g) es))) g)"
proof (induction es arbitrary: g)
  case Nil
  show ?case by simp
next
  case (Cons e es)
  show ?case
    by (simp add: strike_eq Cons.IH)
qed

lemma check_attack_eq:
  "check_attack g =
    (if p_action (player g) = ATTACK
     then (add_kills (int (length (filter (slain g) (enemies g)))) g)
            \<lparr>enemies := map (struck g) (enemies g)\<rparr>
     else g)"
  by (simp add: check_attack_def strike_loop_eq)

section \<open>The player's health\<close>

lemma add_kills_health [simp]: "p_health (player (add_kills n g)) = p_health (player g)"
  by (simp add: add_kills_def)

lemma check_attack_health [simp]: "p_health (player (check_attack g)) = p_health (player g)"
  by (simp add: check_attack_eq)

lemma handle_playing_event_health [simp]:
  "p_health (player (handle_playing_event ctrl g ev)) = p_health (player g)"
  by (cases ev) (simp_all add: handle_playing_event_def)

lemma foldl_playing_event_health [simp]:
  "p_health (player (foldl (handle_playing_event ctrl) g evs)) = p_health (player g)"
  by (induction evs arbitrary: g) simp_all

lemma apply_keys_health [simp]: "p_health (player (apply_keys keys g)) = p_health (player g)"
  by (simp add: apply_keys_def Let_def)

lemma check_door_interaction_health [simp]:
  "p_health (player (check_door_interaction t g)) = p_health (player g)"
  by (simp add: check_door_interaction_def Let_def)

lemma player_revert_health [simp]:
  "p_health (player (player_revert ox oy g)) = p_health (player g)"
  by (simp add: player_revert_def)

lemma player_clamp_health [simp]: "p_health (player (player_clamp g)) = p_health (player g)"
  by (simp add: player_clamp_def Let_def)

lemma handle_playing_events_health [simp]:
  "p_health (player (handle_playing_events inp g)) = p_health (player g)"
  by (simp add: handle_playing_events_def Let_def)

lemma update_npc_emotion_player [simp]: "player (update_npc_emotion d g) = player g"
  by (simp add: update_npc_emotion_def update_npc_reaction_def Let_def)

lemma npc_shift_player [simp]: "player (npc_shift g a b) = player g"
  by (simp add: npc_shift_def)

lemma npc_react_health:
  "p_health (player (fst (npc_react g))) = p_health (player g) \<or>
   p_health (player (fst (npc_react g))) = min (p_health (player g) + 10) 100"
  by (simp add: npc_react_def npc_follow_def npc_notify_def npc_attack_enemy_def
      npc_provide_healing_def Let_def split: NPCReaction.split option.split prod.split)

lemma npc_revert_player [simp]: "player (npc_revert ox oy g) = player g"
  by (simp add: npc_revert_def)

lemma npc_clamp_player [simp]: "player (npc_clamp g) = player g"
  by (simp add: npc_clamp_def Let_def)

lemma npc_round_player [simp]: "player (npc_round m g) = player g"
  by (simp add: npc_round_def)

lemma npc_cooldown_player [simp]: "player (npc_cooldown g) = player g"
  by (simp add: npc_cooldown_def)

lemma update_npc_position_health:
  "p_health (player (update_npc_position g)) = p_health (player g) \<or>
   p_health (player (update_npc_position g)) = min (p_health (player g) + 10) 100"
  using npc_react_health [of "npc_cooldown g"]
  by (simp add: update_npc_position_def Let_def split_beta)

lemma update_enemy_health:
  "snd (update_enemy g draw e h) = h \<or>
   snd (update_enemy g draw e h) = max 0 (h - ENEMY_DAMAGE / of_int FPS)"
  by (simp add: update_enemy_def Let_def split_beta)

lemma enemies_loop_health_bounds:
  "0 \<le> h \<Longrightarrow> 0 \<le> snd (enemies_loop g rand i es h) \<and> snd (enemies_loop g rand i es h) \<le> h"
proof (induction es arbitrary: i h)
  case Nil
  then show ?case by simp
next
  case (Cons e es)
  let ?h1 = "snd (update_enemy g (rand i) e h)"
  have h1: "0 \<le> ?h1 \<and> ?h1 \<le> h"
    using update_enemy_health [of g "rand i" e h] Cons.prems
    by (auto simp: game_consts)
  from Cons.IH [of ?h1 "Suc i"] h1
  show ?case by (auto simp: split_beta Let_def)
qed

lemma enemies_loop_health_lower:
  "h - 2 / 3 * real (length es) \<le> snd (enemies_loop g rand i es h)"
proof (induction es arbitrary: i h)
  case Nil
  then show ?case by simp
next
  case (Cons e es)
  let ?h1 = "snd (update_enemy g (rand i) e h)"
  have h1: "h - 2 / 3 \<le> ?h1"
    using update_enemy_health [of g "rand i" e h]
    by (auto simp: game_consts)
  have "h - 2 / 3 * real (length (e # es)) = h - 2 / 3 - 2 / 3 * real (length es)"
    by (simp add: algebra_simps)
  also have "\<dots> \<le> ?h1 - 2 / 3 * real (length es)"
    using h1 by simp
  also have "\<dots> \<le> snd (enemies_loop g rand (Suc i) es ?h1)"
    by (rule Cons.IH)
  finally show ?case by (simp add: split_beta Let_def)
qed

lemma update_enemies_health:
  "p_health (player (update_enemies rand g)) =
    snd (enemies_loop g rand 0 (enemies g) (p_health (player g)))"
  by (simp add: update_enemies_def split_beta Let_def)

lemma collect_health:
  "p_health (player (snd (collect g r))) = p_health (player g) \<or>
   p_health (player (snd (collect g r))) = min (p_health (player g) + RESOURCE_HEAL) 100"
  by (simp add: collect_def Let_def)

lemma collect_health_ok: "health_ok g \<Longrightarrow> health_ok (snd (collect g r))"
  using collect_health [of g r] by (auto simp: health_ok_def game_consts)

lemma collect_loop_lift:
  assumes step: "\<And>g r. P g \<Longrightarrow> P (snd (collect g r))" and init: "P g"
  shows "P (snd (collect_loop g rs))"
  using init
proof (induction rs arbitrary: g)
  case Nil
  then show ?case by simp
next
  case (Cons r rs)
  from Cons.IH [OF step [OF Cons.prems]]
  show ?case by (simp add: split_beta Let_def)
qed

lemma check_resource_collection_health_ok:
  "health_ok g \<Longrightarrow> health_ok (check_resource_collection g)"
  using collect_loop_lift [of health_ok g "resources g", OF collect_health_ok]
  by (simp add: check_resource_collection_def split_beta health_ok_def)

lemma check_exit_interaction_player [simp]: "player (fst (check_exit_interaction g)) = player g"
  by (simp add: check_exit_interaction_def Let_def)

lemma draw_game_player [simp]: "player (draw_game g) = player g"
  by (simp add: draw_game_def Let_def)

lemma update_npc_position_health_ok: "health_ok g \<Longrightarrow> health_ok (update_npc_position g)"
  using update_npc_position_health [of g] by (auto simp: health_ok_def)

lemma update_enemies_health_ok: "health_ok g \<Longrightarrow> health_ok (update_enemies rand g)"
  using enemies_loop_health_bounds [of "p_health (player g)" g rand 0 "enemies g"]
  by (auto simp: health_ok_def update_enemies_health)

lemma playing_step_health_ok: "health_ok g \<Longrightarrow> health_ok (playing_step inp g)"
proof -
  assume ok: "health_ok g"
  let ?g1 = "handle_playing_events inp
               (g\<lparr>frame := frame g + 1,
                  lagged_player_action := p_action (player g)\<rparr>)"
  have "health_ok ?g1" using ok by (simp add: health_ok_def)
  then have "health_ok (update_npc_emotion (ti_decide inp) ?g1)"
    by (simp add: health_ok_def)
  then have "health_ok (update_npc_position (update_npc_emotion (ti_decide inp) ?g1))"
    by (rule update_npc_position_health_ok)
  then have "health_ok (update_enemies (ti_rand inp)
      (update_npc_position (update_npc_emotion (ti_decide inp) ?g1)))"
    by (rule update_enemies_health_ok)
  then have "health_ok (check_resource_collection (update_enemies (ti_rand inp)
      (update_npc_position (update_npc_emotion (ti_decide inp) ?g1))))"
    by (rule check_resource_collection_health_ok)
  then show ?thesis
    by (simp add: playing_step_def Let_def health_ok_def)
qed

lemma reset_health [simp]: "p_health (player (reset g lo)) = 100"
  by (simp add: reset_def)

lemma reset_health_ok [simp]: "health_ok (reset g lo)"
  by (simp add: health_ok_def)

lemma handle_start_screen_events_player [simp]:
  "player (handle_start_screen_events inp g) = player g"
proof -
  have "player (foldl (handle_start_screen_event c) g evs) = player g" for c evs
    by (induction evs arbitrary: g)
      (simp_all add: handle_start_screen_event_def split: event.split)
  then show ?thesis by (simp add: handle_start_screen_events_def)
qed

lemma handle_completed_screen_events_player [simp]:
  "player (handle_completed_screen_events inp g) = player g"
proof -
  have "player (foldl handle_completed_screen_event g evs) = player g" for evs
    by (induction evs arbitrary: g)
      (simp_all add: handle_completed_screen_event_def split: event.split)
  then show ?thesis by (simp add: handle_completed_screen_events_def)
qed

lemma update_health_ok: "health_ok g \<Longrightarrow> health_ok (update g inp)"
  using playing_step_health_ok [of g inp]
  by (cases "state g") (auto simp: update_def Let_def health_ok_def)

lemma ticks_health_ok: "health_ok g \<Longrightarrow> health_ok (ticks g inps)"
  unfolding ticks_def
  by (induction inps arbitrary: g) (simp_all add: update_health_ok)

text \<open>
  Claim C2. For all ticks of a run, health stays within \<open>[0, 100]\<close>: whatever the inputs
  of the ticks since the game was created, the player's health is at least 0 (the enemies'
  contact damage is floored by \<open>max 0\<close>) and at most 100 (the healing of a pickup and of
  the companion is capped by \<open>min \<dots> 100\<close>; a reset sets it to 100). The companion of the
  source has no health attribute (its dictionary holds position, emotion, lagged emotion,
  reaction, speed and attack cooldown), so the player's health is the only one there is.
\<close>

theorem player_health_within_bounds:
  "0 \<le> p_health (player (ticks (new_game limit pid cond lo) inps)) \<and>
   p_health (player (ticks (new_game limit pid cond lo) inps)) \<le> 100"
proof -
  have "health_ok (new_game limit pid cond lo)"
    by (simp add: new_game_def)
  then have "health_ok (ticks (new_game limit pid cond lo) inps)"
    by (rule ticks_health_ok)
  then show ?thesis by (simp add: health_ok_def)
qed

section \<open>Dead enemies and the kill counters, function by function\<close>

lemma dead_kept_refl [simp]: "dead_kept es es"
  by (simp add: dead_kept_def)

lemma dead_kept_trans: "dead_kept es es' \<Longrightarrow> dead_kept es' es'' \<Longrightarrow> dead_kept es es''"
  by (auto simp: dead_kept_def)

lemma dead_kept_Cons:
  "(\<not> e_alive e \<longrightarrow> e' = e) \<Longrightarrow> dead_kept es es' \<Longrightarrow> dead_kept (e # es) (e' # es')"
  by (auto simp: dead_kept_def nth_Cons split: nat.split)

lemma dead_count_Nil [simp]: "dead_count [] = 0"
  by (simp add: dead_count_def)

lemma dead_count_Cons [simp]:
  "dead_count (e # es) = (if e_alive e then 0 else 1) + dead_count es"
  by (simp add: dead_count_def)

lemma dead_count_update:
  "i < length es \<Longrightarrow>
   dead_count (es[i := y]) =
     dead_count es + (if e_alive y then 0 else 1) - (if e_alive (es ! i) then 0 else 1)"
proof (induction es arbitrary: i)
  case Nil
  then show ?case by simp
next
  case (Cons e es)
  then show ?case by (cases i) simp_all
qed

lemma dead_kept_update:
  "e_alive (es ! i) \<Longrightarrow> dead_kept es (es[i := y])"
  by (simp add: dead_kept_def) (metis nth_list_update_neq)

subsection \<open>The attack\<close>

lemma struck_dead [simp]: "\<not> e_alive e \<Longrightarrow> struck g e = e"
  by (simp add: struck_def within_attack_reach_def)

lemma dead_kept_struck: "dead_kept es (map (struck g) es)"
  by (simp add: dead_kept_def)

lemma dead_count_struck:
  "dead_count (map (struck g) es) = dead_count es + int (length (filter (slain g) es))"
  by (induction es) (auto simp: struck_def slain_def within_attack_reach_def)

lemma tally_add_kills_enemies:
  "tally ((add_kills n g)\<lparr>enemies := es\<rparr>) =
    (enemies_killed g + n - dead_count es, p_enemies_killed (player g) + n - dead_count es)"
  by (simp add: tally_def add_kills_def)

lemma check_attack_tally [simp]: "tally (check_attack g) = tally g"
  by (simp add: check_attack_eq tally_add_kills_enemies dead_count_struck) (simp add: tally_def)

lemma check_attack_dead_kept: "dead_kept (enemies g) (enemies (check_attack g))"
  by (simp add: check_attack_eq dead_kept_struck)

lemma handle_playing_event_tally [simp]: "tally (handle_playing_event ctrl g ev) = tally g"
proof (cases ev)
  case (KEYDOWN k)
  have "tally (g\<lparr>player := (player g)\<lparr>p_action := ATTACK\<rparr>\<rparr>) = tally g"
    by (simp add: tally_def)
  then have space: "tally (check_attack (g\<lparr>player := (player g)\<lparr>p_action := ATTACK\<rparr>\<rparr>)) = tally g"
    by simp
  show ?thesis
  proof (cases "k = K_SPACE")
    case True
    with KEYDOWN space show ?thesis by (simp add: handle_playing_event_def)
  next
    case False
    with KEYDOWN show ?thesis by (simp add: handle_playing_event_def tally_def)
  qed
qed (simp_all add: handle_playing_event_def tally_def)

lemma handle_playing_event_dead_kept:
  "dead_kept (enemies g) (enemies (handle_playing_event ctrl g ev))"
proof (cases ev)
  case (KEYDOWN k)
  show ?thesis
    using check_attack_dead_kept [of "g\<lparr>player := (player g)\<lparr>p_action := ATTACK\<rparr>\<rparr>"] KEYDOWN
    by (simp add: handle_playing_event_def)
qed (simp_all add: handle_playing_event_def)

lemma foldl_playing_event_tally [simp]:
  "tally (foldl (handle_playing_event ctrl) g evs) = tally g"
  by (induction evs arbitrary: g) simp_all

lemma foldl_playing_event_dead_kept:
  "dead_kept (enemies g) (enemies (foldl (handle_playing_event ctrl) g evs))"
proof (induction evs arbitrary: g)
  case Nil
  show ?case by simp
next
  case (Cons ev evs)
  show ?case
    using dead_kept_trans [OF handle_playing_event_dead_kept Cons.IH]
    by simp
qed

subsection \<open>The rest of the player's turn\<close>

lemma apply_keys_tally [simp]: "tally (apply_keys keys g) = tally g"
  by (simp add: apply_keys_def tally_def Let_def)

lemma apply_keys_enemies [simp]: "enemies (apply_keys keys g) = enemies g"
  by (simp add: apply_keys_def Let_def)

lemma check_door_interaction_tally [simp]: "tally (check_door_interaction t g) = tally g"
  by (simp add: check_door_interaction_def tally_def Let_def)

lemma check_door_interaction_enemies [simp]:
  "enemies (check_door_interaction t g) = enemies g"
  by (simp add: check_door_interaction_def Let_def)

lemma player_revert_tally [simp]: "tally (player_revert ox oy g) = tally g"
  by (simp add: player_revert_def tally_def)

lemma player_revert_enemies [simp]: "enemies (player_revert ox oy g) = enemies g"
  by (simp add: player_revert_def)

lemma player_clamp_tally [simp]: "tally (player_clamp g) = tally g"
  by (simp add: player_clamp_def tally_def Let_def)

lemma player_clamp_enemies [simp]: "enemies (player_clamp g) = enemies g"
  by (simp add: player_clamp_def Let_def)

lemma handle_playing_events_tally [simp]: "tally (handle_playing_events inp g) = tally g"
  by (simp add: handle_playing_events_def Let_def)

lemma handle_playing_events_dead_kept:
  "dead_kept (enemies g) (enemies (handle_playing_events inp g))"
  by (simp add: handle_playing_events_def Let_def foldl_playing_event_dead_kept)

subsection \<open>The companion's turn\<close>

lemma update_npc_emotion_enemies [simp]: "enemies (update_npc_emotion d g) = enemies g"
  by (simp add: update_npc_emotion_def update_npc_reaction_def Let_def)

lemma update_npc_emotion_tally [simp]: "tally (update_npc_emotion d g) = tally g"
  by (simp add: tally_def) (simp add: update_npc_emotion_def update_npc_reaction_def Let_def)

lemma nth_Cons_shift: "Suc i \<le> j \<Longrightarrow> (e # es) ! (j - i) = es ! (j - Suc i)"
proof -
  assume "Suc i \<le> j"
  then have "j - i = Suc (j - Suc i)" by arith
  then show ?thesis by simp
qed

lemma nearest_to_npc_bound:
  "nearest_to_npc g es i best = Some (j, d) \<Longrightarrow>
   best = Some (j, d) \<or>
   (i \<le> j \<and> j < i + length es \<and> e_alive (es ! (j - i)) \<and> e_room (es ! (j - i)) = current_room g)"
proof (induction es arbitrary: i best)
  case Nil
  then show ?case by simp
next
  case (Cons e es)
  show ?case
  proof (cases "e_room e = current_room g \<and> e_alive e")
    case False
    with Cons.prems have "nearest_to_npc g es (Suc i) best = Some (j, d)"
      by auto
    from Cons.IH [OF this] show ?thesis
      by (auto simp: nth_Cons_shift)
  next
    case True
    let ?d = "sqrt ((n_x (npc g) - e_x e)\<^sup>2 + (n_y (npc g) - e_y e)\<^sup>2)"
    from Cons.prems True
    have "nearest_to_npc g es (Suc i) best = Some (j, d) \<or>
          nearest_to_npc g es (Suc i) (Some (i, ?d)) = Some (j, d)"
      by (auto simp: Let_def split: if_splits)
    then show ?thesis
    proof
      assume "nearest_to_npc g es (Suc i) best = Some (j, d)"
      from Cons.IH [OF this] show ?thesis
        by (auto simp: nth_Cons_shift)
    next
      assume "nearest_to_npc g es (Suc i) (Some (i, ?d)) = Some (j, d)"
      from Cons.IH [OF this] True show ?thesis
        by (auto simp: nth_Cons_shift)
    qed
  qed
qed

lemma nearest_to_npc_alive:
  assumes "nearest_to_npc g (enemies g) 0 None = Some (j, d)"
  shows "j < length (enemies g) \<and> e_alive (enemies g ! j)"
  using nearest_to_npc_bound [OF assms] by simp

lemma npc_shift_enemies [simp]: "enemies (npc_shift g a b) = enemies g"
  by (simp add: npc_shift_def)

lemma npc_shift_tally [simp]: "tally (npc_shift g a b) = tally g"
  by (simp add: npc_shift_def tally_def)

lemma npc_attack_enemy_census:
  "tally (fst (npc_attack_enemy g)) = tally g \<and>
   dead_kept (enemies g) (enemies (fst (npc_attack_enemy g)))"
proof (cases "nearest_to_npc g (enemies g) 0 None")
  case None
  then show ?thesis by (simp add: npc_attack_enemy_def)
next
  case (Some a)
  obtain j d where a: "a = (j, d)" by (cases a)
  from nearest_to_npc_alive [of g j d] Some a
  have j: "j < length (enemies g)" and alive: "e_alive (enemies g ! j)" by simp_all
  have upd: "dead_count ((enemies g)[j := y]) = dead_count (enemies g) + (if e_alive y then 0 else 1)" for y
    using dead_count_update [OF j, of y] alive by simp
  show ?thesis
    using Some a j alive
    by (simp add: npc_attack_enemy_def Let_def dead_kept_update)
       (simp add: tally_def upd)
qed

lemma npc_react_census:
  "tally (fst (npc_react g)) = tally g \<and> dead_kept (enemies g) (enemies (fst (npc_react g)))"
proof (cases "n_reaction (npc g)")
  case ATTACK_ENEMY
  then show ?thesis using npc_attack_enemy_census [of g] by (simp add: npc_react_def)
next
  case PROVIDE_HEALING
  then show ?thesis
    by (simp add: npc_react_def npc_provide_healing_def Let_def) (simp add: tally_def)
qed (simp_all add: npc_react_def npc_follow_def npc_notify_def Let_def)

lemma npc_cooldown_enemies [simp]: "enemies (npc_cooldown g) = enemies g"
  by (simp add: npc_cooldown_def)

lemma npc_cooldown_tally [simp]: "tally (npc_cooldown g) = tally g"
  by (simp add: npc_cooldown_def tally_def)

lemma npc_revert_census [simp]:
  "enemies (npc_revert ox oy g) = enemies g" "tally (npc_revert ox oy g) = tally g"
  by (simp_all add: npc_revert_def tally_def)

lemma npc_clamp_census [simp]:
  "enemies (npc_clamp g) = enemies g" "tally (npc_clamp g) = tally g"
  by (simp_all add: npc_clamp_def tally_def Let_def)

lemma npc_round_census [simp]:
  "enemies (npc_round m g) = enemies g" "tally (npc_round m g) = tally g"
  by (simp_all add: npc_round_def tally_def)

lemma update_npc_position_census:
  "tally (update_npc_position g) = tally g \<and>
   dead_kept (enemies g) (enemies (update_npc_position g))"
  using npc_react_census [of "npc_cooldown g"]
  by (simp add: update_npc_position_def Let_def split_beta)

subsection \<open>The enemies' turn\<close>

lemma update_enemy_dead [simp]: "\<not> e_alive e \<Longrightarrow> update_enemy g draw e h = (e, h)"
  by (simp add: update_enemy_def)

lemma update_enemy_alive [simp]: "e_alive (fst (update_enemy g draw e h)) = e_alive e"
  by (simp add: update_enemy_def Let_def split_beta)

lemma update_enemy_vitals [simp]:
  "e_health (fst (update_enemy g draw e h)) = e_health e"
  "e_room (fst (update_enemy g draw e h)) = e_room e"
  "e_speed (fst (update_enemy g draw e h)) = e_speed e"
  by (simp_all add: update_enemy_def Let_def split_beta)

lemma enemies_loop_census:
  "dead_kept es (fst (enemies_loop g rand i es h)) \<and>
   dead_count (fst (enemies_loop g rand i es h)) = dead_count es \<and>
   map e_health (fst (enemies_loop g rand i es h)) = map e_health es \<and>
   map e_alive (fst (enemies_loop g rand i es h)) = map e_alive es"
proof (induction es arbitrary: i h)
  case Nil
  show ?case by simp
next
  case (Cons e es)
  show ?case
    using Cons.IH [of "Suc i" "snd (update_enemy g (rand i) e h)"]
    by (simp add: split_beta Let_def dead_kept_Cons)
qed

lemma update_enemies_enemies:
  "enemies (update_enemies rand g) = fst (enemies_loop g rand 0 (enemies g) (p_health (player g)))"
  by (simp add: update_enemies_def split_beta Let_def)

lemma update_enemies_census:
  "tally (update_enemies rand g) = tally g \<and>
   dead_kept (enemies g) (enemies (update_enemies rand g))"
  using enemies_loop_census [of "enemies g" g rand 0 "p_health (player g)"]
  by (simp add: update_enemies_enemies tally_def) (simp add: update_enemies_def split_beta)

subsection \<open>Pickups, exit, drawing\<close>

lemma collect_census:
  "tally (snd (collect g r)) = tally g \<and> enemies (snd (collect g r)) = enemies g"
  by (simp add: collect_def Let_def tally_def)

lemma check_resource_collection_census:
  "tally (check_resource_collection g) = tally g \<and>
   enemies (check_resource_collection g) = enemies g"
proof -
  have "tally (snd (collect_loop g rs)) = tally g \<and> enemies (snd (collect_loop g rs)) = enemies g"
    for rs
    by (rule collect_loop_lift [where P = "\<lambda>g'. tally g' = tally g \<and> enemies g' = enemies g"])
       (simp_all add: collect_census)
  from this [of "resources g"] show ?thesis
    by (auto simp add: check_resource_collection_def split_beta tally_def)
qed

lemma check_exit_interaction_census [simp]:
  "tally (fst (check_exit_interaction g)) = tally g"
  "enemies (fst (check_exit_interaction g)) = enemies g"
  by (simp_all add: check_exit_interaction_def Let_def tally_def)

lemma draw_game_census [simp]:
  "tally (draw_game g) = tally g" "enemies (draw_game g) = enemies g"
  by (simp_all add: draw_game_def Let_def tally_def)

subsection \<open>The whole step\<close>

lemma playing_step_census:
  "tally (playing_step inp g) = tally g \<and> dead_kept (enemies g) (enemies (playing_step inp g))"
proof -
  let ?g0 = "g\<lparr>frame := frame g + 1, lagged_player_action := p_action (player g)\<rparr>"
  let ?g1 = "handle_playing_events inp ?g0"
  let ?g2 = "update_npc_emotion (ti_decide inp) ?g1"
  let ?g3 = "update_npc_position ?g2"
  let ?g4 = "update_enemies (ti_rand inp) ?g3"
  let ?g5 = "check_resource_collection ?g4"
  have t0: "tally ?g0 = tally g" by (simp add: tally_def)
  have k1: "dead_kept (enemies g) (enemies ?g1)"
    using handle_playing_events_dead_kept [of ?g0 inp] by simp
  have k3: "dead_kept (enemies g) (enemies ?g3)"
    using dead_kept_trans [OF k1] update_npc_position_census [of ?g2] by simp
  have k4: "dead_kept (enemies g) (enemies ?g4)"
    using dead_kept_trans [OF k3] update_enemies_census [of "ti_rand inp" ?g3] by simp
  have k5: "dead_kept (enemies g) (enemies ?g5)"
    using k4 check_resource_collection_census [of ?g4] by simp
  have t5: "tally ?g5 = tally g"
    using t0 update_npc_position_census [of ?g2] update_enemies_census [of "ti_rand inp" ?g3]
      check_resource_collection_census [of ?g4]
    by simp
  have "playing_step inp g = draw_game (fst (check_exit_interaction ?g5))"
    by (simp add: playing_step_def Let_def)
  with k5 t5 show ?thesis by simp
qed

section \<open>Dead enemies over a run\<close>

lemma handle_start_screen_events_shape:
  "\<exists>s d. handle_start_screen_events inp g = g\<lparr>debug_mode := d, state := s\<rparr>"
proof -
  have "\<exists>s d. foldl (handle_start_screen_event c) g evs = g\<lparr>debug_mode := d, state := s\<rparr>"
    for c evs
  proof (induction evs arbitrary: g)
    case Nil
    have "g = g\<lparr>debug_mode := debug_mode g, state := state g\<rparr>" by simp
    then show ?case by (metis foldl_Nil)
  next
    case (Cons ev evs)
    obtain s1 d1 where one: "handle_start_screen_event c g ev = g\<lparr>debug_mode := d1, state := s1\<rparr>"
    proof -
      have "handle_start_screen_event c g ev
            = g\<lparr>debug_mode := debug_mode (handle_start_screen_event c g ev),
                 state := state (handle_start_screen_event c g ev)\<rparr>"
        by (cases ev) (simp_all add: handle_start_screen_event_def)
      then show ?thesis using that by blast
    qed
    from Cons.IH [of "g\<lparr>debug_mode := d1, state := s1\<rparr>"]
    obtain s d where
      "foldl (handle_start_screen_event c) (g\<lparr>debug_mode := d1, state := s1\<rparr>) evs
        = g\<lparr>debug_mode := d1, state := s1\<rparr>\<lparr>debug_mode := d, state := s\<rparr>"
      by blast
    then have "foldl (handle_start_screen_event c) g (ev # evs) = g\<lparr>debug_mode := d, state := s\<rparr>"
      using one by simp
    then show ?case by blast
  qed
  then show ?thesis by (simp add: handle_start_screen_events_def)
qed

lemma handle_completed_screen_events_shape:
  "\<exists>b. handle_completed_screen_events inp g = g\<lparr>running := b\<rparr>"
proof -
  have "\<exists>b. foldl handle_completed_screen_event g evs = g\<lparr>running := b\<rparr>" for evs
  proof (induction evs arbitrary: g)
    case Nil
    have "g = g\<lparr>running := running g\<rparr>" by simp
    then show ?case by (metis foldl_Nil)
  next
    case (Cons ev evs)
    obtain b1 where one: "handle_completed_screen_event g ev = g\<lparr>running := b1\<rparr>"
    proof -
      have "handle_completed_screen_event g ev
            = g\<lparr>running := running (handle_completed_screen_event g ev)\<rparr>"
        by (cases ev) (simp_all add: handle_completed_screen_event_def)
      then show ?thesis using that by blast
    qed
    from Cons.IH [of "g\<lparr>running := b1\<rparr>"]
    obtain b where
      "foldl handle_completed_screen_event (g\<lparr>running := b1\<rparr>) evs = g\<lparr>running := b1\<rparr>\<lparr>running := b\<rparr>"
      by blast
    then have "foldl handle_completed_screen_event g (ev # evs) = g\<lparr>running := b\<rparr>"
      using one by simp
    then show ?case by blast
  qed
  then show ?thesis by (simp add: handle_completed_screen_events_def)
qed

lemma handle_start_screen_events_census [simp]:
  "tally (handle_start_screen_events inp g) = tally g"
  "enemies (handle_start_screen_events inp g) = enemies g"
  using handle_start_screen_events_shape [of inp g] by (auto simp: tally_def)

lemma handle_completed_screen_events_census [simp]:
  "tally (handle_completed_screen_events inp g) = tally g"
  "enemies (handle_completed_screen_events inp g) = enemies g"
  using handle_completed_screen_events_shape [of inp g] by (auto simp: tally_def)

lemma update_census:
  assumes "state g = PLAYING \<longrightarrow> 0 < p_health (player (playing_step inp g))"
  shows "tally (update g inp) = tally g \<and> dead_kept (enemies g) (enemies (update g inp))"
proof (cases "state g")
  case PLAYING
  with assms have "0 < p_health (player (playing_step inp g))" by simp
  then have "tally (update g inp) = tally (playing_step inp g) \<and>
             enemies (update g inp) = enemies (playing_step inp g)"
    using PLAYING by (simp add: update_def Let_def tally_def)
  then show ?thesis using playing_step_census [of inp g] by simp
qed (simp_all add: update_def)

lemma ticks_census:
  "survives g inps \<Longrightarrow>
   tally (ticks g inps) = tally g \<and> dead_kept (enemies g) (enemies (ticks g inps))"
proof (induction inps arbitrary: g)
  case Nil
  show ?case by (simp add: ticks_def)
next
  case (Cons inp inps)
  from Cons.prems have step: "state g = PLAYING \<longrightarrow> 0 < p_health (player (playing_step inp g))"
    and rest: "survives (update g inp) inps" by simp_all
  from Cons.IH [OF rest] update_census [OF step]
  show ?case
    by (auto simp: ticks_def intro: dead_kept_trans)
qed

text \<open>
  Claim C6. Once an enemy's alive flag is false it stays false for the rest of the run.
  For every sequence of ticks without a reset, an enemy that is dead at the start is, at
  the end, the very same record: still dead, at the same position, with the same health.
  Its iteration of \<open>update_enemies\<close> changes neither the enemy nor the player's health (it
  neither moves nor deals damage), and the player's attack leaves it as it is. Both kill
  counters grow over the ticks by exactly the growth of the number of dead enemies; as a
  dead enemy stays dead, every death is counted once.
\<close>

theorem dead_enemy_stays_dead:
  assumes "survives g inps" and "j < length (enemies g)" and "\<not> e_alive (enemies g ! j)"
  shows "enemies (ticks g inps) ! j = enemies g ! j
       \<and> update_enemy g' draw (enemies g ! j) health = (enemies g ! j, health)
       \<and> struck g' (enemies g ! j) = enemies g ! j
       \<and> enemies_killed (ticks g inps) - enemies_killed g
           = dead_count (enemies (ticks g inps)) - dead_count (enemies g)
       \<and> p_enemies_killed (player (ticks g inps)) - p_enemies_killed (player g)
           = dead_count (enemies (ticks g inps)) - dead_count (enemies g)"
proof -
  from ticks_census [OF assms(1)]
  have t: "tally (ticks g inps) = tally g"
    and k: "dead_kept (enemies g) (enemies (ticks g inps))" by simp_all
  from k assms(2,3) have "enemies (ticks g inps) ! j = enemies g ! j"
    by (simp add: dead_kept_def)
  moreover from t have
    "enemies_killed (ticks g inps) - enemies_killed g
       = dead_count (enemies (ticks g inps)) - dead_count (enemies g)"
    "p_enemies_killed (player (ticks g inps)) - p_enemies_killed (player g)
       = dead_count (enemies (ticks g inps)) - dead_count (enemies g)"
    by (simp_all add: tally_def)
  ultimately show ?thesis using assms(3) by simp
qed

section \<open>Facts about the example states\<close>

lemma started_game_eq: "started_game = fresh_game\<lparr>state := PLAYING\<rparr>"
  by (simp add: started_game_def fresh_game_def new_game_def reset_def update_def
      handle_start_screen_events_def handle_start_screen_event_def idle_input_def)

lemma fresh_game_enemies:
  "enemies fresh_game =
    map (spawn_enemy demo_layout 1) [0..<7] @ map (spawn_enemy demo_layout 2) [7..<15]"
  by (simp add: fresh_game_def new_game_def reset_def)

lemma fresh_game_basics:
  "length (enemies fresh_game) = 15" "p_health (player fresh_game) = 100"
  "state fresh_game = START_SCREEN" "current_room fresh_game = 1"
  "p_x (player fresh_game) = 175" "p_y (player fresh_game) = 225"
  "enemies fresh_game ! 0 = spawn_enemy demo_layout 1 0"
  "game_time_limit fresh_game = 120" "frame fresh_game = 0"
  "\<not> d_open (door fresh_game)" "resources_collected fresh_game = 0"
  "debug_mode fresh_game = False"
  by (simp_all add: fresh_game_def new_game_def reset_def room_x_offset_def room_y_offset_def
      floordiv_def game_consts upt_rec)

lemma sqrt_less_numeral: "0 \<le> x \<Longrightarrow> sqrt x < numeral n \<longleftrightarrow> x < (numeral n)\<^sup>2"
  by (metis real_sqrt_less_iff real_sqrt_abs abs_numeral)

lemma held_game_basics:
  "state held_game = PLAYING" "p_action (player held_game) = ATTACK"
  "length (enemies held_game) = 15" "p_health (player held_game) = 100"
  "enemies held_game ! 0 = spawn_enemy demo_layout 1 0"
  by (simp_all add: held_game_def started_game_eq fresh_game_basics)

lemma held_in_reach: "within_attack_reach held_game (enemies held_game ! 0)"
  by (simp add: held_game_def started_game_eq fresh_game_basics within_attack_reach_def
      spawn_enemy_def demo_layout_def distance_def game_consts sqrt_less_numeral)

section \<open>A lower bound on the health after a step\<close>

text \<open>
  Every enemy takes at most \<open>ENEMY_DAMAGE / FPS = 2 / 3\<close> per tick, so a tick costs at most
  two thirds of a point per enemy; healing only adds. A tick that starts with more health
  than that does not end in a reset.
\<close>

lemma collect_loop_health_lower:
  "min h0 100 \<le> p_health (player g) \<Longrightarrow> min h0 100 \<le> p_health (player (snd (collect_loop g rs)))"
proof (rule collect_loop_lift [where P = "\<lambda>g'. min h0 100 \<le> p_health (player g')"])
  fix g' :: game and r
  assume "min h0 100 \<le> p_health (player g')"
  then show "min h0 100 \<le> p_health (player (snd (collect g' r)))"
    using collect_health [of g' r] by (auto simp: game_consts)
qed

lemma check_resource_collection_health_lower:
  "min (p_health (player g)) 100 \<le> p_health (player (check_resource_collection g))"
  using collect_loop_health_lower [of "p_health (player g)" g "resources g"]
  by (simp add: check_resource_collection_def split_beta)

lemma dead_kept_length: "dead_kept es es' \<Longrightarrow> length es' = length es"
  by (simp add: dead_kept_def)

lemma playing_step_health_lower:
  "min (p_health (player g)) 100 - 2 / 3 * real (length (enemies g))
     \<le> p_health (player (playing_step inp g))"
proof -
  let ?g0 = "g\<lparr>frame := frame g + 1, lagged_player_action := p_action (player g)\<rparr>"
  let ?g1 = "handle_playing_events inp ?g0"
  let ?g2 = "update_npc_emotion (ti_decide inp) ?g1"
  let ?g3 = "update_npc_position ?g2"
  let ?g4 = "update_enemies (ti_rand inp) ?g3"
  let ?g5 = "check_resource_collection ?g4"
  let ?h = "p_health (player g)"
  let ?n = "real (length (enemies g))"
  have h2: "p_health (player ?g2) = ?h" by simp
  have len: "length (enemies ?g3) = length (enemies g)"
    using dead_kept_length [OF handle_playing_events_dead_kept [of ?g0 inp]]
      dead_kept_length [of "enemies ?g2" "enemies ?g3"] update_npc_position_census [of ?g2]
    by simp
  have h3: "min ?h 100 \<le> p_health (player ?g3)"
    using update_npc_position_health [of ?g2] h2 by auto
  have "p_health (player ?g3) - 2 / 3 * ?n \<le> p_health (player ?g4)"
    using enemies_loop_health_lower [of "p_health (player ?g3)" "enemies ?g3" ?g3 "ti_rand inp" 0]
    by (simp add: update_enemies_health len)
  with h3 have h4: "min ?h 100 - 2 / 3 * ?n \<le> p_health (player ?g4)" by linarith
  have "min (p_health (player ?g4)) 100 \<le> p_health (player ?g5)"
    by (rule check_resource_collection_health_lower)
  with h4 have "min ?h 100 - 2 / 3 * ?n \<le> p_health (player ?g5)" by auto
  moreover have "playing_step inp g = draw_game (fst (check_exit_interaction ?g5))"
    by (simp add: playing_step_def Let_def)
  ultimately show ?thesis by simp
qed

lemma update_playing_shape:
  assumes "state g = PLAYING" and "0 < p_health (player (playing_step inp g))"
  shows "update g inp = (playing_step inp g)\<lparr>state := state (update g inp)\<rparr>"
  using assms by (simp add: update_def Let_def)

section \<open>The player's attack\<close>

subsection \<open>The player's attack is bound to the key press\<close>

lemma reach_action [simp]:
  "within_attack_reach (g\<lparr>player := (player g)\<lparr>p_action := a\<rparr>\<rparr>) = within_attack_reach g"
  by (rule ext) (simp add: within_attack_reach_def)

lemma struck_action [simp]: "struck (g\<lparr>player := (player g)\<lparr>p_action := a\<rparr>\<rparr>) = struck g"
  by (rule ext) (simp add: struck_def)

lemma slain_action [simp]: "slain (g\<lparr>player := (player g)\<lparr>p_action := a\<rparr>\<rparr>) = slain g"
  by (rule ext) (simp add: slain_def)

lemma handle_playing_event_enemies:
  "enemies (handle_playing_event ctrl g ev) =
    (if ev = KEYDOWN K_SPACE then map (struck g) (enemies g) else enemies g)"
  by (cases ev) (auto simp: handle_playing_event_def check_attack_eq add_kills_def)

lemma foldl_playing_event_enemies:
  "KEYDOWN K_SPACE \<notin> set evs \<Longrightarrow>
   enemies (foldl (handle_playing_event ctrl) g evs) = enemies g"
  by (induction evs arbitrary: g) (auto simp: handle_playing_event_enemies)

text \<open>
  Claim C5, as amended. The player's attack is bound to the key press, not to the intent:
  when a SPACE key-down event is handled during play, the action becomes ATTACK and every
  alive enemy of the current room closer than \<open>ATTACK_RADIUS\<close> (60) to the player loses
  \<open>PLAYER_DAMAGE\<close> (100) health; one whose health is then at most 0 is deactivated, and
  both kill counters grow by the number of enemies so killed. An enemy in reach with
  health at most 100 (every enemy starts at 100 and none gains health) is killed by the one
  hit. Events other than a SPACE key-down leave the enemies as they are.
\<close>

theorem space_keydown_attack:
  "enemies (handle_playing_event ctrl g (KEYDOWN K_SPACE)) = map (struck g) (enemies g)
   \<and> p_action (player (handle_playing_event ctrl g (KEYDOWN K_SPACE))) = ATTACK
   \<and> enemies_killed (handle_playing_event ctrl g (KEYDOWN K_SPACE))
       = enemies_killed g + int (length (filter (slain g) (enemies g)))
   \<and> p_enemies_killed (player (handle_playing_event ctrl g (KEYDOWN K_SPACE)))
       = p_enemies_killed (player g) + int (length (filter (slain g) (enemies g)))
   \<and> (within_attack_reach g e \<and> e_health e \<le> 100 \<longrightarrow> slain g e \<and> \<not> e_alive (struck g e))
   \<and> (KEYDOWN K_SPACE \<notin> set evs \<longrightarrow>
        enemies (foldl (handle_playing_event ctrl) g evs) = enemies g)"
  by (simp add: handle_playing_event_def check_attack_eq add_kills_def struck_def slain_def
      foldl_playing_event_enemies game_consts)

subsection \<open>A tick without an attack leaves the enemies' health alone\<close>

lemma handle_playing_events_enemies:
  "KEYDOWN K_SPACE \<notin> set (ti_events inp) \<Longrightarrow>
   enemies (handle_playing_events inp g) = enemies g"
  by (simp add: handle_playing_events_def Let_def foldl_playing_event_enemies)

lemma npc_react_enemies:
  "n_reaction (npc g) \<noteq> ATTACK_ENEMY \<Longrightarrow> enemies (fst (npc_react g)) = enemies g"
  by (cases "n_reaction (npc g)")
     (simp_all add: npc_react_def npc_follow_def npc_notify_def npc_provide_healing_def Let_def)

lemma npc_cooldown_reaction [simp]: "n_reaction (npc (npc_cooldown g)) = n_reaction (npc g)"
  by (simp add: npc_cooldown_def)

lemma update_npc_position_enemies:
  "n_reaction (npc g) \<noteq> ATTACK_ENEMY \<Longrightarrow> enemies (update_npc_position g) = enemies g"
  using npc_react_enemies [of "npc_cooldown g"]
  by (simp add: update_npc_position_def Let_def split_beta)

lemma playing_step_vitals:
  assumes "KEYDOWN K_SPACE \<notin> set (ti_events inp)"
    and "n_reaction (npc (update_npc_emotion (ti_decide inp)
           (handle_playing_events inp
              (g\<lparr>frame := frame g + 1, lagged_player_action := p_action (player g)\<rparr>))))
         \<noteq> ATTACK_ENEMY"
  shows "map e_health (enemies (playing_step inp g)) = map e_health (enemies g)
       \<and> map e_alive (enemies (playing_step inp g)) = map e_alive (enemies g)"
proof -
  let ?g0 = "g\<lparr>frame := frame g + 1, lagged_player_action := p_action (player g)\<rparr>"
  let ?g1 = "handle_playing_events inp ?g0"
  let ?g2 = "update_npc_emotion (ti_decide inp) ?g1"
  let ?g3 = "update_npc_position ?g2"
  let ?g4 = "update_enemies (ti_rand inp) ?g3"
  let ?g5 = "check_resource_collection ?g4"
  have e3: "enemies ?g3 = enemies g"
    using handle_playing_events_enemies [OF assms(1), of ?g0]
      update_npc_position_enemies [OF assms(2)] by simp
  have "map e_health (enemies ?g4) = map e_health (enemies ?g3) \<and>
        map e_alive (enemies ?g4) = map e_alive (enemies ?g3)"
    using enemies_loop_census [of "enemies ?g3" ?g3 "ti_rand inp" 0 "p_health (player ?g3)"]
    by (simp add: update_enemies_enemies)
  moreover have "enemies ?g5 = enemies ?g4"
    using check_resource_collection_census [of ?g4] by simp
  moreover have "playing_step inp g = draw_game (fst (check_exit_interaction ?g5))"
    by (simp add: playing_step_def Let_def)
  ultimately show ?thesis using e3 by simp
qed

subsection \<open>The player's action through a tick\<close>

lemma apply_keys_attack:
  "p_action (player g) = ATTACK \<Longrightarrow> p_action (player (apply_keys keys g)) = ATTACK"
  by (simp add: apply_keys_def Let_def)

lemma player_revert_action [simp]:
  "p_action (player (player_revert ox oy g)) = p_action (player g)"
  by (simp add: player_revert_def)

lemma player_clamp_action [simp]: "p_action (player (player_clamp g)) = p_action (player g)"
  by (simp add: player_clamp_def Let_def)

lemma check_door_interaction_action [simp]:
  "p_action (player (check_door_interaction t g)) = p_action (player g)"
  by (simp add: check_door_interaction_def Let_def)

lemma npc_react_action [simp]: "p_action (player (fst (npc_react g))) = p_action (player g)"
  by (cases "n_reaction (npc g)")
     (simp_all add: npc_react_def npc_follow_def npc_notify_def npc_provide_healing_def
        npc_attack_enemy_def Let_def split: option.split prod.split)

lemma update_npc_position_action [simp]:
  "p_action (player (update_npc_position g)) = p_action (player g)"
  by (simp add: update_npc_position_def Let_def split_beta)

lemma update_enemies_action [simp]:
  "p_action (player (update_enemies rand g)) = p_action (player g)"
  by (simp add: update_enemies_def split_beta)

lemma check_resource_collection_action [simp]:
  "p_action (player (check_resource_collection g)) = p_action (player g)"
proof -
  have "p_action (player (snd (collect_loop g rs))) = p_action (player g)" for rs
    by (rule collect_loop_lift [where P = "\<lambda>g'. p_action (player g') = p_action (player g)"])
       (simp_all add: collect_def Let_def)
  then show ?thesis by (simp add: check_resource_collection_def split_beta)
qed

lemma playing_step_action:
  "p_action (player (playing_step inp g)) =
    p_action (player (handle_playing_events inp
      (g\<lparr>frame := frame g + 1, lagged_player_action := p_action (player g)\<rparr>)))"
  by (simp add: playing_step_def Let_def)

lemma held_attack_stays:
  "p_action (player g) = ATTACK \<Longrightarrow> ti_events inp = [] \<Longrightarrow>
   p_action (player (playing_step inp g)) = ATTACK"
  by (simp add: playing_step_action handle_playing_events_def Let_def apply_keys_attack)

subsection \<open>Holding the key\<close>

lemma held_game_survives: "0 < p_health (player (playing_step idle_input held_game))"
  using playing_step_health_lower [of held_game idle_input]
  by (simp add: held_game_basics)

text \<open>
  The claim as stated (damage on every tick in which the intent is Attack) fails: with
  SPACE held down since an earlier tick the action is ATTACK before and after the tick,
  an alive enemy of the room is 40 away, and the tick leaves its health at 100.
\<close>

theorem held_attack_deals_no_damage:
  "state held_game = PLAYING
   \<and> p_action (player held_game) = ATTACK
   \<and> within_attack_reach held_game (enemies held_game ! 0)
   \<and> p_action (player (update held_game idle_input)) = ATTACK
   \<and> e_alive (enemies (update held_game idle_input) ! 0)
   \<and> e_health (enemies (update held_game idle_input) ! 0) = 100"
proof -
  have shape: "update held_game idle_input =
      (playing_step idle_input held_game)\<lparr>state := state (update held_game idle_input)\<rparr>"
    by (rule update_playing_shape) (simp_all add: held_game_basics held_game_survives)
  have vit: "map e_health (enemies (playing_step idle_input held_game)) = map e_health (enemies held_game)
      \<and> map e_alive (enemies (playing_step idle_input held_game)) = map e_alive (enemies held_game)"
    by (rule playing_step_vitals)
       (simp_all add: idle_input_def update_npc_emotion_def update_npc_reaction_def Let_def)
  have len: "length (enemies (playing_step idle_input held_game)) = 15"
    using dead_kept_length [of "enemies held_game" "enemies (playing_step idle_input held_game)"]
      playing_step_census [of idle_input held_game]
    by (simp add: held_game_basics)
  have "e_health (enemies (playing_step idle_input held_game) ! 0)
        = map e_health (enemies (playing_step idle_input held_game)) ! 0"
    and "e_alive (enemies (playing_step idle_input held_game) ! 0)
        = map e_alive (enemies (playing_step idle_input held_game)) ! 0"
    using len by simp_all
  then have "e_health (enemies (playing_step idle_input held_game) ! 0) = 100"
    and "e_alive (enemies (playing_step idle_input held_game) ! 0)"
    using vit by (simp_all add: held_game_basics spawn_enemy_def)
  moreover have "p_action (player (playing_step idle_input held_game)) = ATTACK"
    by (rule held_attack_stays) (simp_all add: held_game_basics idle_input_def)
  moreover have "enemies (update held_game idle_input) = enemies (playing_step idle_input held_game)"
    and "player (update held_game idle_input) = player (playing_step idle_input held_game)"
    by (subst shape, simp)+
  ultimately show ?thesis
    using held_in_reach by (simp add: held_game_basics)
qed

subsection \<open>Instances\<close>

lemma started_game_basics:
  "state started_game = PLAYING" "length (enemies started_game) = 15"
  "p_health (player started_game) = 100"
  "enemies started_game ! 0 = spawn_enemy demo_layout 1 0"
  "current_room started_game = 1"
  "p_x (player started_game) = 175" "p_y (player started_game) = 225"
  by (simp_all add: started_game_eq fresh_game_basics)

lemma started_in_reach: "within_attack_reach started_game (enemies started_game ! 0)"
  by (simp add: started_game_basics within_attack_reach_def
      spawn_enemy_def demo_layout_def distance_def game_consts sqrt_less_numeral)

theorem space_keydown_attack_witness:
  "within_attack_reach started_game (enemies started_game ! 0)
   \<and> e_health (enemies started_game ! 0) \<le> 100
   \<and> slain started_game (enemies started_game ! 0)
   \<and> \<not> e_alive (struck started_game (enemies started_game ! 0))
   \<and> KEYDOWN K_SPACE \<notin> set [KEYUP K_SPACE]
   \<and> enemies (foldl (handle_playing_event False) started_game [KEYUP K_SPACE])
       = enemies started_game
   \<and> enemies struck_game = map (struck started_game) (enemies started_game)
   \<and> p_action (player struck_game) = ATTACK"
  using space_keydown_attack [of False started_game "enemies started_game ! 0" "[KEYUP K_SPACE]"]
    started_in_reach
  by (simp add: struck_game_def started_game_basics spawn_enemy_def)

lemma struck_game_basics:
  "state struck_game = PLAYING" "length (enemies struck_game) = 15"
  "p_health (player struck_game) = 100" "\<not> e_alive (enemies struck_game ! 0)"
proof -
  have e: "enemies struck_game = map (struck started_game) (enemies started_game)"
    by (simp add: struck_game_def handle_playing_event_enemies)
  show "length (enemies struck_game) = 15" by (simp add: e started_game_basics)
  show "state struck_game = PLAYING"
    by (simp add: struck_game_def handle_playing_event_def check_attack_eq add_kills_def
        started_game_basics)
  show "p_health (player struck_game) = 100"
    by (simp add: struck_game_def started_game_basics)
  have "slain started_game (enemies started_game ! 0)"
    using started_in_reach by (simp add: slain_def started_game_basics spawn_enemy_def game_consts)
  then show "\<not> e_alive (enemies struck_game ! 0)"
    by (simp add: e started_game_basics struck_def slain_def game_consts)
qed

theorem dead_enemy_stays_dead_witness:
  "survives struck_game [idle_input]
   \<and> 0 < length (enemies struck_game)
   \<and> \<not> e_alive (enemies struck_game ! 0)
   \<and> enemies (ticks struck_game [idle_input]) ! 0 = enemies struck_game ! 0
   \<and> enemies_killed (ticks struck_game [idle_input]) - enemies_killed struck_game
       = dead_count (enemies (ticks struck_game [idle_input])) - dead_count (enemies struck_game)"
proof -
  have s: "survives struck_game [idle_input]"
    using playing_step_health_lower [of struck_game idle_input]
    by (simp add: struck_game_basics)
  from dead_enemy_stays_dead [OF s, of 0] s show ?thesis
    by (simp add: struck_game_basics)
qed

section \<open>The door\<close>

lemma add_kills_fields [simp]:
  "door (add_kills n g) = door g" "resources_collected (add_kills n g) = resources_collected g"
  "debug_mode (add_kills n g) = debug_mode g" "state (add_kills n g) = state g"
  "frame (add_kills n g) = frame g" "game_time_limit (add_kills n g) = game_time_limit g"
  "current_room (add_kills n g) = current_room g" "obstacles (add_kills n g) = obstacles g"
  "rooms (add_kills n g) = rooms g" "npc (add_kills n g) = npc g"
  "p_x (player (add_kills n g)) = p_x (player g)" "p_y (player (add_kills n g)) = p_y (player g)"
  "running (add_kills n g) = running g"
  "p_resources_collected (player (add_kills n g)) = p_resources_collected (player g)"
  by (simp_all add: add_kills_def)

lemma handle_playing_event_door:
  "d_open (door (handle_playing_event ctrl g ev)) \<longleftrightarrow>
     d_open (door g) \<or> (ev = KEYDOWN K_o \<and> debug_mode g)"
  by (cases ev) (auto simp: handle_playing_event_def check_attack_eq)

lemma handle_playing_event_debug:
  "debug_mode (handle_playing_event ctrl g ev) =
     (if ev = KEYDOWN K_d \<and> ctrl then \<not> debug_mode g else debug_mode g)"
  by (cases ev) (auto simp: handle_playing_event_def check_attack_eq)

lemma handle_playing_event_resources [simp]:
  "resources_collected (handle_playing_event ctrl g ev) = resources_collected g"
  by (cases ev) (auto simp: handle_playing_event_def check_attack_eq)

lemma foldl_playing_event_door:
  "d_open (door (foldl (handle_playing_event ctrl) g evs)) \<longleftrightarrow>
     d_open (door g) \<or> debug_open_key ctrl (debug_mode g) evs"
proof (induction evs arbitrary: g)
  case Nil
  show ?case by simp
next
  case (Cons ev evs)
  show ?case
    by (simp add: Cons.IH handle_playing_event_door handle_playing_event_debug) auto
qed

lemma foldl_playing_event_resources [simp]:
  "resources_collected (foldl (handle_playing_event ctrl) g evs) = resources_collected g"
  by (induction evs arbitrary: g) simp_all

lemma apply_keys_door [simp]:
  "door (apply_keys keys g) = door g"
  "resources_collected (apply_keys keys g) = resources_collected g"
  by (simp_all add: apply_keys_def Let_def)

lemma player_revert_door [simp]:
  "door (player_revert ox oy g) = door g"
  "resources_collected (player_revert ox oy g) = resources_collected g"
  by (simp_all add: player_revert_def)

lemma player_clamp_door [simp]:
  "door (player_clamp g) = door g"
  "resources_collected (player_clamp g) = resources_collected g"
  by (simp_all add: player_clamp_def Let_def)

lemma check_door_interaction_door [simp]:
  "door (check_door_interaction t g) = door g"
  "resources_collected (check_door_interaction t g) = resources_collected g"
  by (simp_all add: check_door_interaction_def Let_def)

lemma handle_playing_events_door:
  "d_open (door (handle_playing_events inp g)) \<longleftrightarrow>
     d_open (door g) \<or> debug_open_key (ti_ctrl inp) (debug_mode g) (ti_events inp)"
  "resources_collected (handle_playing_events inp g) = resources_collected g"
  by (simp_all add: handle_playing_events_def Let_def foldl_playing_event_door)

lemma update_npc_emotion_door [simp]:
  "door (update_npc_emotion d g) = door g"
  "resources_collected (update_npc_emotion d g) = resources_collected g"
  by (simp_all add: update_npc_emotion_def update_npc_reaction_def Let_def)

lemma npc_react_door [simp]:
  "door (fst (npc_react g)) = door g"
  "resources_collected (fst (npc_react g)) = resources_collected g"
  by (cases "n_reaction (npc g)";
      simp add: npc_react_def npc_follow_def npc_notify_def npc_provide_healing_def
        npc_attack_enemy_def npc_shift_def Let_def split: option.split prod.split)+

lemma npc_steps_frame [simp]:
  "door (npc_cooldown g) = door g" "resources_collected (npc_cooldown g) = resources_collected g"
  "current_room (npc_cooldown g) = current_room g" "resources (npc_cooldown g) = resources g"
  "door (npc_revert ox oy g) = door g"
  "resources_collected (npc_revert ox oy g) = resources_collected g"
  "current_room (npc_revert ox oy g) = current_room g"
  "resources (npc_revert ox oy g) = resources g"
  "door (npc_clamp g) = door g" "resources_collected (npc_clamp g) = resources_collected g"
  "current_room (npc_clamp g) = current_room g" "resources (npc_clamp g) = resources g"
  "door (npc_round m g) = door g" "resources_collected (npc_round m g) = resources_collected g"
  "current_room (npc_round m g) = current_room g" "resources (npc_round m g) = resources g"
  by (simp_all add: npc_cooldown_def npc_revert_def npc_clamp_def npc_round_def Let_def)

lemma update_npc_position_door [simp]:
  "door (update_npc_position g) = door g"
  "resources_collected (update_npc_position g) = resources_collected g"
  by (simp_all add: update_npc_position_def Let_def split_beta)

lemma update_enemies_door [simp]:
  "door (update_enemies rand g) = door g"
  "resources_collected (update_enemies rand g) = resources_collected g"
  by (simp_all add: update_enemies_def split_beta)

lemma check_exit_interaction_door [simp]:
  "door (fst (check_exit_interaction g)) = door g"
  "resources_collected (fst (check_exit_interaction g)) = resources_collected g"
  by (simp_all add: check_exit_interaction_def Let_def)

lemma draw_game_door [simp]:
  "door (draw_game g) = door g" "resources_collected (draw_game g) = resources_collected g"
  by (simp_all add: draw_game_def Let_def)

lemma collect_door:
  "resources_collected g \<le> resources_collected (snd (collect g r))"
  "d_open (door g) \<Longrightarrow> d_open (door (snd (collect g r)))"
  "d_open (door (snd (collect g r))) \<Longrightarrow>
     d_open (door g) \<or> 2 \<le> resources_collected (snd (collect g r))"
  "door_inv g \<Longrightarrow> door_inv (snd (collect g r))"
  by (auto simp: collect_def Let_def door_inv_def)

lemma check_resource_collection_door:
  "resources_collected g \<le> resources_collected (check_resource_collection g)"
  "d_open (door g) \<Longrightarrow> d_open (door (check_resource_collection g))"
  "d_open (door (check_resource_collection g)) \<Longrightarrow>
     d_open (door g) \<or> 2 \<le> resources_collected (check_resource_collection g)"
  "door_inv g \<Longrightarrow> door_inv (check_resource_collection g)"
proof -
  let ?P = "\<lambda>g'. resources_collected g \<le> resources_collected g'
      \<and> (d_open (door g) \<longrightarrow> d_open (door g'))
      \<and> (d_open (door g') \<longrightarrow> d_open (door g) \<or> 2 \<le> resources_collected g')
      \<and> (door_inv g \<longrightarrow> door_inv g')"
  have step: "?P (snd (collect g' r))" if "?P g'" for g' :: game and r
    using that collect_door [of g' r] by auto
  have "?P (snd (collect_loop g (resources g)))"
    by (rule collect_loop_lift [where P = ?P]) (use step in auto)
  then show "resources_collected g \<le> resources_collected (check_resource_collection g)"
    and "d_open (door g) \<Longrightarrow> d_open (door (check_resource_collection g))"
    and "d_open (door (check_resource_collection g)) \<Longrightarrow>
     d_open (door g) \<or> 2 \<le> resources_collected (check_resource_collection g)"
    and "door_inv g \<Longrightarrow> door_inv (check_resource_collection g)"
    by (auto simp: check_resource_collection_def split_beta door_inv_def)
qed

lemma playing_step_door:
  "d_open (door g) \<Longrightarrow> d_open (door (playing_step inp g))"
  "door_inv g \<Longrightarrow> door_inv (playing_step inp g)"
  "door_inv g \<Longrightarrow> \<not> d_open (door g) \<Longrightarrow>
     d_open (door (playing_step inp g)) \<longleftrightarrow>
       2 \<le> resources_collected (playing_step inp g)
       \<or> debug_open_key (ti_ctrl inp) (debug_mode g) (ti_events inp)"
proof -
  let ?g0 = "g\<lparr>frame := frame g + 1, lagged_player_action := p_action (player g)\<rparr>"
  let ?g1 = "handle_playing_events inp ?g0"
  let ?g4 = "update_enemies (ti_rand inp) (update_npc_position (update_npc_emotion (ti_decide inp) ?g1))"
  let ?g5 = "check_resource_collection ?g4"
  let ?key = "debug_open_key (ti_ctrl inp) (debug_mode g) (ti_events inp)"
  have ps: "playing_step inp g = draw_game (fst (check_exit_interaction ?g5))"
    by (simp add: playing_step_def Let_def)
  have d4: "d_open (door ?g4) \<longleftrightarrow> d_open (door g) \<or> ?key"
    and r4: "resources_collected ?g4 = resources_collected g"
    by (simp_all add: handle_playing_events_door)
  have inv4: "door_inv ?g4" if "door_inv g"
    using that d4 r4 by (auto simp: door_inv_def)
  show "d_open (door (playing_step inp g))" if "d_open (door g)"
    using that d4 check_resource_collection_door(2) [of ?g4] by (simp add: ps)
  show inv: "door_inv (playing_step inp g)" if "door_inv g"
    using check_resource_collection_door(4) [OF inv4 [OF that]]
    by (simp add: ps door_inv_def)
  show "d_open (door (playing_step inp g)) \<longleftrightarrow>
       2 \<le> resources_collected (playing_step inp g) \<or> ?key"
    if i: "door_inv g" and c: "\<not> d_open (door g)"
  proof
    assume "d_open (door (playing_step inp g))"
    then have "d_open (door ?g5)" by (simp add: ps)
    from check_resource_collection_door(3) [OF this] d4 c
    show "2 \<le> resources_collected (playing_step inp g) \<or> ?key"
      by (auto simp: ps)
  next
    assume "2 \<le> resources_collected (playing_step inp g) \<or> ?key"
    then show "d_open (door (playing_step inp g))"
    proof
      assume "2 \<le> resources_collected (playing_step inp g)"
      with inv [OF i] show ?thesis by (simp add: door_inv_def)
    next
      assume ?key
      with d4 have "d_open (door ?g4)" by simp
      from check_resource_collection_door(2) [OF this] show ?thesis by (simp add: ps)
    qed
  qed
qed

lemma reset_door_inv [simp]: "door_inv (reset g lo)"
  by (simp add: reset_def door_inv_def)

lemma update_door_inv: "door_inv g \<Longrightarrow> door_inv (update g inp)"
proof (cases "state g")
  case START_SCREEN
  assume "door_inv g"
  then show ?thesis
    using START_SCREEN handle_start_screen_events_shape [of inp g]
    by (auto simp: update_def door_inv_def)
next
  case COMPLETED
  assume "door_inv g"
  then show ?thesis
    using COMPLETED handle_completed_screen_events_shape [of inp g]
    by (auto simp: update_def door_inv_def)
next
  case PLAYING
  assume "door_inv g"
  from playing_step_door(2) [OF this, of inp] show ?thesis
    using PLAYING reset_door_inv [of "playing_step inp g" "ti_layout inp"]
    by (auto simp: update_def Let_def door_inv_def)
qed

lemma ticks_door_inv: "door_inv g \<Longrightarrow> door_inv (ticks g inps)"
  unfolding ticks_def
  by (induction inps arbitrary: g) (simp_all add: update_door_inv)

lemma new_game_door_inv: "door_inv (new_game limit pid cond lo)"
  by (simp add: new_game_def)

lemma update_door_mono:
  assumes "state g = PLAYING \<longrightarrow> 0 < p_health (player (playing_step inp g))"
    and "d_open (door g)"
  shows "d_open (door (update g inp))"
proof (cases "state g")
  case START_SCREEN
  then show ?thesis
    using assms(2) handle_start_screen_events_shape [of inp g] by (auto simp: update_def)
next
  case COMPLETED
  then show ?thesis
    using assms(2) handle_completed_screen_events_shape [of inp g] by (auto simp: update_def)
next
  case PLAYING
  with assms(1) have "0 < p_health (player (playing_step inp g))" by simp
  then have "door (update g inp) = door (playing_step inp g)"
    using PLAYING by (simp add: update_def Let_def)
  with playing_step_door(1) [OF assms(2), of inp] show ?thesis by simp
qed

lemma ticks_door_mono:
  "survives g inps \<Longrightarrow> d_open (door g) \<Longrightarrow> d_open (door (ticks g inps))"
proof (induction inps arbitrary: g)
  case Nil
  then show ?case by (simp add: ticks_def)
next
  case (Cons inp inps)
  from Cons.prems have step: "state g = PLAYING \<longrightarrow> 0 < p_health (player (playing_step inp g))"
    and rest: "survives (update g inp) inps" by simp_all
  from Cons.IH [OF rest update_door_mono [OF step Cons.prems(2)]]
  show ?case by (simp add: ticks_def)
qed

subsection \<open>Where the player stands after the companion's and the enemies' turn\<close>

lemma update_npc_emotion_place [simp]:
  "current_room (update_npc_emotion d g) = current_room g"
  "resources (update_npc_emotion d g) = resources g"
  by (simp_all add: update_npc_emotion_def update_npc_reaction_def Let_def)

lemma npc_react_place [simp]:
  "current_room (fst (npc_react g)) = current_room g"
  "resources (fst (npc_react g)) = resources g"
  "p_x (player (fst (npc_react g))) = p_x (player g)"
  "p_y (player (fst (npc_react g))) = p_y (player g)"
  by (cases "n_reaction (npc g)";
      simp add: npc_react_def npc_follow_def npc_notify_def npc_provide_healing_def
        npc_attack_enemy_def npc_shift_def Let_def split: option.split prod.split)+

lemma update_npc_position_place [simp]:
  "current_room (update_npc_position g) = current_room g"
  "resources (update_npc_position g) = resources g"
  "p_x (player (update_npc_position g)) = p_x (player g)"
  "p_y (player (update_npc_position g)) = p_y (player g)"
  by (simp_all add: update_npc_position_def Let_def split_beta)

lemma update_enemies_place [simp]:
  "current_room (update_enemies rand g) = current_room g"
  "resources (update_enemies rand g) = resources g"
  "p_x (player (update_enemies rand g)) = p_x (player g)"
  "p_y (player (update_enemies rand g)) = p_y (player g)"
  by (simp_all add: update_enemies_def split_beta)

lemma collect_out_of_reach: "\<not> pickup_reach g r \<Longrightarrow> collect g r = (r, g)"
  by (auto simp: collect_def pickup_reach_def distance_def)

lemma collect_loop_out_of_reach:
  "list_all (\<lambda>r. \<not> pickup_reach g r) rs \<Longrightarrow> collect_loop g rs = (rs, g)"
  by (induction rs) (simp_all add: collect_out_of_reach)

lemma check_resource_collection_none:
  "list_all (\<lambda>r. \<not> pickup_reach g r) (resources g) \<Longrightarrow> check_resource_collection g = g"
  by (simp add: check_resource_collection_def collect_loop_out_of_reach)

lemma pickup_reach_cong:
  "current_room g' = current_room g \<Longrightarrow> p_x (player g') = p_x (player g) \<Longrightarrow>
   p_y (player g') = p_y (player g) \<Longrightarrow> pickup_reach g' = pickup_reach g"
  by (rule ext) (simp add: pickup_reach_def)

lemma playing_step_no_pickup:
  assumes "list_all (\<lambda>r. \<not> pickup_reach (handle_playing_events inp
              (g\<lparr>frame := frame g + 1, lagged_player_action := p_action (player g)\<rparr>)) r)
            (resources (handle_playing_events inp
              (g\<lparr>frame := frame g + 1, lagged_player_action := p_action (player g)\<rparr>)))"
  shows "resources_collected (playing_step inp g) = resources_collected g"
proof -
  let ?g0 = "g\<lparr>frame := frame g + 1, lagged_player_action := p_action (player g)\<rparr>"
  let ?g1 = "handle_playing_events inp ?g0"
  let ?g3 = "update_npc_position (update_npc_emotion (ti_decide inp) ?g1)"
  let ?g4 = "update_enemies (ti_rand inp) ?g3"
  have "pickup_reach ?g4 = pickup_reach ?g1"
    by (rule pickup_reach_cong) simp_all
  with assms have "check_resource_collection ?g4 = ?g4"
    by (simp add: check_resource_collection_none)
  moreover have "playing_step inp g = draw_game (fst (check_exit_interaction (check_resource_collection ?g4)))"
    by (simp add: playing_step_def Let_def)
  ultimately show ?thesis
    by (simp add: handle_playing_events_door)
qed

lemma debug_game_eq: "debug_game = fresh_game\<lparr>debug_mode := True, state := PLAYING\<rparr>"
  by (simp add: debug_game_def fresh_game_def new_game_def reset_def update_def
      handle_start_screen_events_def handle_start_screen_event_def idle_input_def)

lemma debug_game_basics:
  "state debug_game = PLAYING" "length (enemies debug_game) = 15"
  "p_health (player debug_game) = 100" "debug_mode debug_game"
  "\<not> d_open (door debug_game)" "resources_collected debug_game = 0"
  by (simp_all add: debug_game_eq fresh_game_basics)

lemma debug_game_after_events:
  "handle_playing_events press_o
     (debug_game\<lparr>frame := frame debug_game + 1,
                 lagged_player_action := p_action (player debug_game)\<rparr>)
   = debug_game\<lparr>frame := 1, door := (door debug_game)\<lparr>d_open := True\<rparr>\<rparr>"
  apply (simp add: handle_playing_events_def Let_def press_o_def idle_input_def
      handle_playing_event_def apply_keys_def)
  apply (simp add: debug_game_eq fresh_game_def new_game_def reset_def
      player_revert_def is_valid_move_def is_player_at_door_def player_clamp_def
      check_door_interaction_def Let_def
      demo_layout_def initial_rooms_def room_x_offset_def room_y_offset_def floordiv_def
      game_consts sqrt_less_numeral)
  done

text \<open>
  Claim C3, as amended. In every state reached from a fresh game: while the door is
  closed fewer than 2 resources have been collected; an open door stays open over every
  sequence of ticks without a reset (so within a run the flag goes from false to true at
  most once and never back); and in a playing tick that starts with the door closed and
  does not end in a reset, the door is open afterwards exactly when the cumulative number
  of collected resources has reached 2 or the tick's events contain an O key-down handled
  in debug mode.
\<close>

theorem door_opens_once:
  assumes "g = ticks (new_game limit pid cond lo) past"
  shows "(\<not> d_open (door g) \<longrightarrow> resources_collected g < 2)
       \<and> (survives g rest \<and> d_open (door g) \<longrightarrow> d_open (door (ticks g rest)))
       \<and> (state g = PLAYING \<and> \<not> d_open (door g) \<and> 0 < p_health (player (playing_step inp g))
            \<longrightarrow> (d_open (door (update g inp)) \<longleftrightarrow>
                  2 \<le> resources_collected (update g inp)
                  \<or> debug_open_key (ti_ctrl inp) (debug_mode g) (ti_events inp)))"
proof -
  have inv: "door_inv g"
    unfolding assms by (rule ticks_door_inv) (rule new_game_door_inv)
  then have one: "\<not> d_open (door g) \<longrightarrow> resources_collected g < 2"
    by (auto simp: door_inv_def)
  have two: "survives g rest \<and> d_open (door g) \<longrightarrow> d_open (door (ticks g rest))"
    by (simp add: ticks_door_mono)
  have three: "d_open (door (update g inp)) \<longleftrightarrow>
                  2 \<le> resources_collected (update g inp)
                  \<or> debug_open_key (ti_ctrl inp) (debug_mode g) (ti_events inp)"
    if "state g = PLAYING" "\<not> d_open (door g)" "0 < p_health (player (playing_step inp g))"
  proof -
    have "door (update g inp) = door (playing_step inp g)"
      and "resources_collected (update g inp) = resources_collected (playing_step inp g)"
      using that by (simp_all add: update_def Let_def)
    with playing_step_door(3) [OF inv that(2), of inp] show ?thesis by simp
  qed
  from one two three show ?thesis by blast
qed

lemma debug_game_reached:
  "debug_game = ticks (new_game 120 (Some ''P01'') (Some ''random'') demo_layout)
     [idle_input\<lparr>ti_events := [KEYDOWN K_d, KEYDOWN K_RETURN], ti_ctrl := True\<rparr>]"
  by (simp add: debug_game_def fresh_game_def ticks_def)

lemma debug_game_survives: "0 < p_health (player (playing_step press_o debug_game))"
  using playing_step_health_lower [of debug_game press_o]
  by (simp add: debug_game_basics)

lemma debug_game_no_pickup:
  "resources_collected (playing_step press_o debug_game) = 0"
proof -
  have "resources_collected (playing_step press_o debug_game) = resources_collected debug_game"
    by (rule playing_step_no_pickup)
       (simp add: debug_game_after_events,
        simp add: debug_game_eq fresh_game_def new_game_def reset_def pickup_reach_def
          spawn_resource_def demo_layout_def distance_def room_x_offset_def room_y_offset_def
          floordiv_def game_consts sqrt_less_numeral upt_rec)
  then show ?thesis by (simp add: debug_game_basics)
qed

text \<open>
  The claim as stated (the door opens exactly when the number of collected resources
  reaches the threshold) fails: after Ctrl+D and RETURN on the start screen, one tick with
  an O key-down opens the door while no resource has been collected.
\<close>

theorem debug_key_opens_door:
  "\<not> d_open (door debug_game)
   \<and> resources_collected debug_game = 0
   \<and> d_open (door (update debug_game press_o))
   \<and> resources_collected (update debug_game press_o) = 0"
proof -
  have same: "door (update debug_game press_o) = door (playing_step press_o debug_game)"
    "resources_collected (update debug_game press_o)
      = resources_collected (playing_step press_o debug_game)"
    using debug_game_survives by (simp_all add: update_def Let_def debug_game_basics)
  have "d_open (door (handle_playing_events press_o
     (debug_game\<lparr>frame := frame debug_game + 1,
                 lagged_player_action := p_action (player debug_game)\<rparr>)))"
    by (simp add: debug_game_after_events)
  then have "d_open (door (check_resource_collection (update_enemies (ti_rand press_o)
      (update_npc_position (update_npc_emotion (ti_decide press_o)
        (handle_playing_events press_o
          (debug_game\<lparr>frame := frame debug_game + 1,
                 lagged_player_action := p_action (player debug_game)\<rparr>)))))))"
    by (intro check_resource_collection_door(2)) simp
  then have "d_open (door (playing_step press_o debug_game))"
    by (simp add: playing_step_def Let_def)
  with same debug_game_no_pickup show ?thesis by (simp add: debug_game_basics)
qed

theorem door_opens_once_witness:
  "\<not> d_open (door debug_game)
   \<and> resources_collected debug_game < 2
   \<and> state debug_game = PLAYING
   \<and> 0 < p_health (player (playing_step press_o debug_game))
   \<and> debug_open_key (ti_ctrl press_o) (debug_mode debug_game) (ti_events press_o)
   \<and> d_open (door (update debug_game press_o))
   \<and> survives opened_game [idle_input]
   \<and> d_open (door opened_game)
   \<and> d_open (door (ticks opened_game [idle_input]))"
proof -
  have reach2: "opened_game = ticks (new_game 120 (Some ''P01'') (Some ''random'') demo_layout)
     [idle_input\<lparr>ti_events := [KEYDOWN K_d, KEYDOWN K_RETURN], ti_ctrl := True\<rparr>, press_o]"
    by (simp add: opened_game_def debug_game_def fresh_game_def ticks_def)
  have key: "debug_open_key (ti_ctrl press_o) (debug_mode debug_game) (ti_events press_o)"
    by (simp add: press_o_def idle_input_def debug_game_basics)
  have opened: "d_open (door (update debug_game press_o))"
    using door_opens_once [OF debug_game_reached, of "[]" press_o] key debug_game_survives
    by (simp add: debug_game_basics)
  have h: "p_health (player opened_game) = p_health (player (playing_step press_o debug_game))"
    and n: "length (enemies opened_game) = length (enemies (playing_step press_o debug_game))"
    using debug_game_survives by (simp_all add: opened_game_def update_def Let_def debug_game_basics)
  have n15: "length (enemies opened_game) = 15"
    using dead_kept_length [of "enemies debug_game" "enemies (playing_step press_o debug_game)"]
      playing_step_census [of press_o debug_game] n
    by (simp add: debug_game_basics)
  have h90: "90 \<le> p_health (player opened_game)"
    using playing_step_health_lower [of debug_game press_o] h by (simp add: debug_game_basics)
  have "90 \<le> min (p_health (player opened_game)) 100"
    using h90 by simp
  then have "0 < p_health (player (playing_step idle_input opened_game))"
    using playing_step_health_lower [of opened_game idle_input] n15 by simp
  then have surv: "survives opened_game [idle_input]"
    by simp
  from door_opens_once [OF reach2, of "[idle_input]" idle_input] surv opened
  have "d_open (door (ticks opened_game [idle_input]))"
    by (simp add: opened_game_def)
  with opened surv key debug_game_survives
    door_opens_once [OF debug_game_reached, of "[]" press_o]
  show ?thesis
    by (simp add: debug_game_basics opened_game_def)
qed

section \<open>The time limit\<close>

lemma add_kills_session [simp]: "session (add_kills n g) = session g"
  by (simp add: session_def add_kills_def)

lemma handle_playing_event_session [simp]: "session (handle_playing_event ctrl g ev) = session g"
  by (cases ev) (auto simp: handle_playing_event_def check_attack_eq session_def add_kills_def)

lemma foldl_playing_event_session [simp]:
  "session (foldl (handle_playing_event ctrl) g evs) = session g"
  by (induction evs arbitrary: g) simp_all

lemma player_turn_session [simp]:
  "session (apply_keys keys g) = session g"
  "session (player_revert ox oy g) = session g"
  "session (player_clamp g) = session g"
  "session (check_door_interaction t g) = session g"
  by (simp_all add: session_def apply_keys_def player_revert_def player_clamp_def
      check_door_interaction_def Let_def)

lemma handle_playing_events_session [simp]: "session (handle_playing_events inp g) = session g"
  by (simp add: handle_playing_events_def Let_def)

lemma update_npc_emotion_session [simp]: "session (update_npc_emotion d g) = session g"
  by (simp add: session_def update_npc_emotion_def update_npc_reaction_def Let_def)

lemma npc_react_session [simp]: "session (fst (npc_react g)) = session g"
  by (cases "n_reaction (npc g)")
     (simp_all add: session_def npc_react_def npc_follow_def npc_notify_def
        npc_provide_healing_def npc_attack_enemy_def npc_shift_def Let_def
        split: option.split prod.split)

lemma npc_steps_session [simp]:
  "session (npc_cooldown g) = session g"
  "session (npc_revert ox oy g) = session g"
  "session (npc_clamp g) = session g"
  "session (npc_round m g) = session g"
  by (simp_all add: session_def npc_cooldown_def npc_revert_def npc_clamp_def npc_round_def
      Let_def)

lemma update_npc_position_session [simp]: "session (update_npc_position g) = session g"
  by (simp add: update_npc_position_def Let_def split_beta)

lemma update_enemies_session [simp]: "session (update_enemies rand g) = session g"
  by (simp add: session_def update_enemies_def split_beta)

lemma check_resource_collection_session [simp]:
  "session (check_resource_collection g) = session g"
proof -
  have "session (snd (collect_loop g rs)) = session g" for rs
    by (rule collect_loop_lift [where P = "\<lambda>g'. session g' = session g"])
       (simp_all add: collect_def Let_def session_def)
  then show ?thesis by (simp add: check_resource_collection_def split_beta session_def)
qed

lemma draw_game_session [simp]: "session (draw_game g) = session g"
  by (simp add: draw_game_def session_def Let_def)



lemma reset_limit [simp]: "game_time_limit (reset g lo) = game_time_limit g"
  by (simp add: reset_def)










section \<open>The exit\<close>

text \<open>
  The gate of \<open>check_exit_interaction\<close>: the function completes the game exactly in room 2,
  with the player's rectangle on the exit's, at 8 kills and 4 resources or more.
\<close>

lemma check_exit_gate:
  "state (fst (check_exit_interaction g)) = COMPLETED \<longleftrightarrow>
     state g = COMPLETED \<or>
     (current_room g = 2 \<and>
      colliderect
        (Rect (p_x (player g) - PLAYER_SIZE / 2) (p_y (player g) - PLAYER_SIZE / 2)
           PLAYER_SIZE PLAYER_SIZE)
        (Rect (x_x (exit_zone g)) (x_y (exit_zone g)) (x_width (exit_zone g))
           (x_height (exit_zone g))) \<and>
      p_enemies_killed (player g) \<ge> 8 \<and> p_resources_collected (player g) \<ge> 4)"
  by (auto simp add: check_exit_interaction_def Let_def)

lemma exit_game_on_exit:
  "current_room (exit_game k) = 2" "state (exit_game k) = PLAYING" "debug_mode (exit_game k)"
  "p_enemies_killed (player (exit_game k)) = k" "p_resources_collected (player (exit_game k)) = 4"
  "colliderect
     (Rect (p_x (player (exit_game k)) - PLAYER_SIZE / 2)
        (p_y (player (exit_game k)) - PLAYER_SIZE / 2) PLAYER_SIZE PLAYER_SIZE)
     (Rect (x_x (exit_zone (exit_game k))) (x_y (exit_zone (exit_game k)))
        (x_width (exit_zone (exit_game k))) (x_height (exit_zone (exit_game k))))"
  by (simp_all add: exit_game_def started_game_eq fresh_game_def new_game_def reset_def
      colliderect_def Rect_def py_int_def initial_rooms_def room_x_offset_def
      room_y_offset_def floordiv_def game_consts)

text \<open>
  Claim C4. Completion is evaluated only in room 2 with the player's rectangle on the exit
  rectangle, and it succeeds exactly when \<open>enemies_killed\<close> and \<open>resources_collected\<close> meet
  one pair of minimum thresholds, applied consistently (the gate's 8 and 4). The gate is
  as claimed (\<open>check_exit_gate\<close>), but the same function does not apply the pair
  consistently: its feedback computes the missing kills against 5, not 8. On the exit with
  4 resources and 6 kills the gate stays closed and the function reports nothing missing;
  with 4 kills it reports one kill missing where four are. With 7 kills the gate is closed,
  with 8 it completes.
\<close>

theorem exit_feedback_threshold_mismatch:
  "state (exit_game 6) = PLAYING
   \<and> check_exit_interaction (exit_game 6) = (exit_game 6, None)
   \<and> check_exit_interaction (exit_game 4) = (exit_game 4, Some (NEED_ENEMIES 1))
   \<and> state (fst (check_exit_interaction (exit_game 7))) = PLAYING
   \<and> state (fst (check_exit_interaction (exit_game 8))) = COMPLETED"
  by (simp add: check_exit_interaction_def Let_def exit_game_on_exit)

section \<open>Obstacles\<close>





lemma add_kills_geometry [simp]:
  "door (add_kills n g) = door g" "obstacles (add_kills n g) = obstacles g"
  "rooms (add_kills n g) = rooms g" "current_room (add_kills n g) = current_room g"
  "npc (add_kills n g) = npc g"
  "p_x (player (add_kills n g)) = p_x (player g)" "p_y (player (add_kills n g)) = p_y (player g)"
  "p_speed (player (add_kills n g)) = p_speed (player g)"
  by (simp_all add: add_kills_def)

subsection \<open>The companion\<close>

lemma npc_react_geometry [simp]:
  "obstacles (fst (npc_react g)) = obstacles g"
  "rooms (fst (npc_react g)) = rooms g"
  by (cases "n_reaction (npc g)";
      simp add: npc_react_def npc_follow_def npc_notify_def npc_provide_healing_def
        npc_attack_enemy_def npc_shift_def Let_def split: option.split prod.split)+

lemma npc_cooldown_geometry [simp]:
  "obstacles (npc_cooldown g) = obstacles g" "rooms (npc_cooldown g) = rooms g"
  "n_x (npc (npc_cooldown g)) = n_x (npc g)" "n_y (npc (npc_cooldown g)) = n_y (npc g)"
  by (simp_all add: npc_cooldown_def)



subsection \<open>The player\<close>




lemma apply_keys_geometry [simp]:
  "obstacles (apply_keys keys g) = obstacles g" "rooms (apply_keys keys g) = rooms g"
  "current_room (apply_keys keys g) = current_room g"
  by (simp_all add: apply_keys_def Let_def)










section \<open>Further instances\<close>


text \<open>With every enemy dead and every resource collected both queries answer 1000.\<close>

lemma exit_game_empty:
  "enemy_distances (exit_game 15) = []" "resource_distances (exit_game 15) = []"
  by (simp_all add: enemy_distances_def resource_distances_def exit_game_def started_game_eq
      fresh_game_def new_game_def reset_def upt_rec)

theorem nearest_distance_sentinel_witness:
  "get_nearest_enemy_distance (exit_game 15) = 1000
   \<and> get_nearest_resource_distance (exit_game 15) = 1000"
  using nearest_distance_sentinel [of "exit_game 15"]
  by (simp add: exit_game_empty)

text \<open>The health bound after the start and one tick of play.\<close>

theorem player_health_within_bounds_witness:
  "0 \<le> p_health (player (ticks fresh_game [idle_input\<lparr>ti_events := [KEYDOWN K_RETURN]\<rparr>, idle_input]))
   \<and> p_health (player (ticks fresh_game [idle_input\<lparr>ti_events := [KEYDOWN K_RETURN]\<rparr>, idle_input])) \<le> 100"
  using player_health_within_bounds [of 120 "Some ''P01''" "Some ''random''" demo_layout
      "[idle_input\<lparr>ti_events := [KEYDOWN K_RETURN]\<rparr>, idle_input]"]
  by (simp add: fresh_game_def)

section \<open>The current room\<close>

text \<open>In every state reached from a fresh game the current room is 1 or 2.\<close>

lemma handle_playing_event_room_ok:
  "room_ok g \<Longrightarrow> room_ok (handle_playing_event ctrl g ev)"
  by (cases ev) (auto simp: handle_playing_event_def check_attack_eq room_ok_def)

lemma foldl_playing_event_room_ok:
  "room_ok g \<Longrightarrow> room_ok (foldl (handle_playing_event ctrl) g evs)"
  by (induction evs arbitrary: g) (simp_all add: handle_playing_event_room_ok)

lemma handle_playing_events_room_ok:
  "room_ok g \<Longrightarrow> room_ok (handle_playing_events inp g)"
proof -
  assume "room_ok g"
  then have "room_ok (foldl (handle_playing_event (ti_ctrl inp)) g (ti_events inp))"
    by (rule foldl_playing_event_room_ok)
  then show ?thesis
    by (auto simp: handle_playing_events_def Let_def room_ok_def player_revert_def
        player_clamp_def check_door_interaction_def)
qed

lemma check_resource_collection_room [simp]:
  "current_room (check_resource_collection g) = current_room g"
proof -
  have "current_room (snd (collect_loop g rs)) = current_room g" for rs
    by (rule collect_loop_lift [where P = "\<lambda>g'. current_room g' = current_room g"])
       (simp_all add: collect_def Let_def)
  then show ?thesis by (simp add: check_resource_collection_def split_beta)
qed

lemma check_exit_draw_room [simp]:
  "current_room (fst (check_exit_interaction g)) = current_room g"
  "current_room (draw_game g) = current_room g"
  by (simp_all add: check_exit_interaction_def draw_game_def Let_def)

lemma playing_step_room_ok: "room_ok g \<Longrightarrow> room_ok (playing_step inp g)"
proof -
  assume "room_ok g"
  then have "room_ok (g\<lparr>frame := frame g + 1, lagged_player_action := p_action (player g)\<rparr>)"
    by (simp add: room_ok_def)
  from handle_playing_events_room_ok [OF this, of inp] show ?thesis
    by (simp add: playing_step_def Let_def room_ok_def)
qed

lemma update_room_ok: "room_ok g \<Longrightarrow> room_ok (update g inp)"
proof (cases "state g")
  case START_SCREEN
  assume "room_ok g"
  then show ?thesis
    using START_SCREEN handle_start_screen_events_shape [of inp g]
    by (auto simp: update_def room_ok_def)
next
  case COMPLETED
  assume "room_ok g"
  then show ?thesis
    using COMPLETED handle_completed_screen_events_shape [of inp g]
    by (auto simp: update_def room_ok_def)
next
  case PLAYING
  assume "room_ok g"
  from playing_step_room_ok [OF this, of inp] show ?thesis
    using PLAYING by (auto simp: update_def Let_def room_ok_def reset_def)
qed

lemma current_room_reachable:
  "current_room (ticks (new_game limit pid cond lo) inps) = 1
   \<or> current_room (ticks (new_game limit pid cond lo) inps) = 2"
proof -
  have "room_ok g \<Longrightarrow> room_ok (ticks g inps)" for g
    unfolding ticks_def by (induction inps arbitrary: g) (simp_all add: update_room_ok)
  moreover have "room_ok (new_game limit pid cond lo)"
    by (simp add: room_ok_def new_game_def reset_def)
  ultimately show ?thesis by (simp add: room_ok_def)
qed

end
